theory Spec2Isabelle
  imports Complex_Main
begin

section \<open>Numbers\<close>

text \<open>
  A JavaScript number is modelled as an exact rational, or one of the three values that are
  not finite. In this first embedding no result is rounded; the functions are given again
  below with the rounding of doubles explicit. Overflow and the sign of zero are outside
  the model. The salary and the hours that reach the functions are finite: the change handlers
  replace a \<open>NaN\<close> input by 0. Where the source divides by a variable, the division is \<open>js_div\<close>, so that a zero
  divisor shows up as \<open>NaN\<close>, \<open>PosInf\<close> or \<open>NegInf\<close>; where it divides by a non-zero
  literal (\<open>/ 12\<close>, \<open>/ 1000 / 3600\<close>, \<open>/ 60\<close>) the division is the one of the rationals.
\<close>

datatype number = Num rat | PosInf | NegInf | NaN

definition js_div :: "rat \<Rightarrow> rat \<Rightarrow> number" where
  "js_div a b =
     (if b = 0 then (if a = 0 then NaN else if 0 < a then PosInf else NegInf)
      else Num (a / b))"

fun js_mul :: "number \<Rightarrow> number \<Rightarrow> number" where
  "js_mul NaN y = NaN"
| "js_mul x NaN = NaN"
| "js_mul (Num a) (Num b) = Num (a * b)"
| "js_mul (Num a) PosInf = (if a = 0 then NaN else if 0 < a then PosInf else NegInf)"
| "js_mul (Num a) NegInf = (if a = 0 then NaN else if 0 < a then NegInf else PosInf)"
| "js_mul PosInf (Num b) = (if b = 0 then NaN else if 0 < b then PosInf else NegInf)"
| "js_mul NegInf (Num b) = (if b = 0 then NaN else if 0 < b then NegInf else PosInf)"
| "js_mul PosInf PosInf = PosInf"
| "js_mul PosInf NegInf = NegInf"
| "js_mul NegInf PosInf = NegInf"
| "js_mul NegInf NegInf = PosInf"

fun Math_min :: "number \<Rightarrow> number \<Rightarrow> number" where
  "Math_min NaN y = NaN"
| "Math_min x NaN = NaN"
| "Math_min NegInf y = NegInf"
| "Math_min x NegInf = NegInf"
| "Math_min PosInf y = y"
| "Math_min x PosInf = x"
| "Math_min (Num a) (Num b) = Num (min a b)"

fun Math_max :: "number \<Rightarrow> number \<Rightarrow> number" where
  "Math_max NaN y = NaN"
| "Math_max x NaN = NaN"
| "Math_max PosInf y = PosInf"
| "Math_max x PosInf = PosInf"
| "Math_max NegInf y = y"
| "Math_max x NegInf = x"
| "Math_max (Num a) (Num b) = Num (max a b)"

fun isFinite :: "number \<Rightarrow> bool" where
  "isFinite (Num a) = True"
| "isFinite x = False"

section \<open>Dates\<close>

text \<open>
  A \<open>Date\<close> object is its time value: milliseconds since 1 January 1970, in this
  section counted in local time with a constant offset (time zones with daylight-saving
  changes follow in their own section), and not limited to the range of time values that
  JavaScript accepts. The functions below are the abstract
  operations of the ECMAScript language specification. There the year of a day is the
  largest \<open>y\<close> with \<open>DayFromYear y \<le> day\<close>; \<open>YearFromDay\<close> computes it from an estimate that
  is off by at most one (lemmas \<open>YearFromDay_lower\<close> and \<open>YearFromDay_upper\<close>).
\<close>

type_synonym date = int

definition msPerDay :: int where "msPerDay = 86400000"
definition msPerHour :: int where "msPerHour = 3600000"
definition msPerMinute :: int where "msPerMinute = 60000"

definition Day :: "date \<Rightarrow> int" where
  "Day t = t div msPerDay"

definition DaysInYear :: "int \<Rightarrow> int" where
  "DaysInYear y =
     (if y mod 4 \<noteq> 0 then 365 else if y mod 100 \<noteq> 0 then 366
      else if y mod 400 \<noteq> 0 then 365 else 366)"

definition DayFromYear :: "int \<Rightarrow> int" where
  "DayFromYear y =
     365 * (y - 1970) + (y - 1969) div 4 - (y - 1901) div 100 + (y - 1601) div 400"

definition YearFromDay :: "int \<Rightarrow> int" where
  "YearFromDay d =
     (let g = 1970 + (400 * d) div 146097 in
      if d < DayFromYear g then g - 1
      else if DayFromYear (g + 1) \<le> d then g + 1
      else g)"

definition YearFromTime :: "date \<Rightarrow> int" where
  "YearFromTime t = YearFromDay (Day t)"

definition InLeapYear :: "date \<Rightarrow> bool" where
  "InLeapYear t = (DaysInYear (YearFromTime t) = 366)"

definition DayWithinYear :: "date \<Rightarrow> int" where
  "DayWithinYear t = Day t - DayFromYear (YearFromTime t)"

text \<open>The number of days of the year that lie before month \<open>m\<close> (0 = January).\<close>

definition MonthStart :: "bool \<Rightarrow> int \<Rightarrow> int" where
  "MonthStart leap m =
     (let l = (if leap then 1 else 0) in
      if m = 0 then 0 else if m = 1 then 31 else if m = 2 then 59 + l
      else if m = 3 then 90 + l else if m = 4 then 120 + l else if m = 5 then 151 + l
      else if m = 6 then 181 + l else if m = 7 then 212 + l else if m = 8 then 243 + l
      else if m = 9 then 273 + l else if m = 10 then 304 + l else 334 + l)"

definition MonthFromTime :: "date \<Rightarrow> int" where
  "MonthFromTime t =
     (let d = DayWithinYear t; l = (if InLeapYear t then 1 else 0) in
      if d < 31 then 0 else if d < 59 + l then 1 else if d < 90 + l then 2
      else if d < 120 + l then 3 else if d < 151 + l then 4 else if d < 181 + l then 5
      else if d < 212 + l then 6 else if d < 243 + l then 7 else if d < 273 + l then 8
      else if d < 304 + l then 9 else if d < 334 + l then 10 else 11)"

definition DateFromTime :: "date \<Rightarrow> int" where
  "DateFromTime t = DayWithinYear t - MonthStart (InLeapYear t) (MonthFromTime t) + 1"

definition WeekDay :: "date \<Rightarrow> int" where
  "WeekDay t = (Day t + 4) mod 7"

definition HourFromTime :: "date \<Rightarrow> int" where
  "HourFromTime t = (t div msPerHour) mod 24"

definition MinFromTime :: "date \<Rightarrow> int" where
  "MinFromTime t = (t div msPerMinute) mod 60"

definition MakeTime :: "int \<Rightarrow> int \<Rightarrow> int \<Rightarrow> int \<Rightarrow> int" where
  "MakeTime h m sec ms = h * msPerHour + m * msPerMinute + sec * 1000 + ms"

definition MakeDay :: "int \<Rightarrow> int \<Rightarrow> int \<Rightarrow> int" where
  "MakeDay y m dt =
     (let ym = y + m div 12; mn = m mod 12 in
      DayFromYear ym + MonthStart (DaysInYear ym = 366) mn + dt - 1)"

definition MakeDate :: "int \<Rightarrow> int \<Rightarrow> date" where
  "MakeDate day time = day * msPerDay + time"

text \<open>The day number that \<open>new Date(y, m, dt, ...)\<close> lands on.\<close>

definition newDay :: "int \<Rightarrow> int \<Rightarrow> int \<Rightarrow> int" where
  "newDay y m dt = MakeDay (if 0 \<le> y \<and> y \<le> 99 then 1900 + y else y) m dt"

text \<open>
  \<open>new Date(year, month, day, hours, minutes, seconds)\<close>: a year from 0 to 99 stands for
  1900 + year, and fields out of range carry over.
\<close>

definition newDate :: "int \<Rightarrow> int \<Rightarrow> int \<Rightarrow> int \<Rightarrow> int \<Rightarrow> int \<Rightarrow> date" where
  "newDate y m dt h mi sec =
     (let yr = (if 0 \<le> y \<and> y \<le> 99 then 1900 + y else y) in
      MakeDate (MakeDay yr m dt) (MakeTime h mi sec 0))"

definition TimeWithinDay :: "date \<Rightarrow> int" where
  "TimeWithinDay t = t mod msPerDay"

definition getFullYear :: "date \<Rightarrow> int" where "getFullYear t = YearFromTime t"
definition getMonth :: "date \<Rightarrow> int" where "getMonth t = MonthFromTime t"
definition getDate :: "date \<Rightarrow> int" where "getDate t = DateFromTime t"
definition getDay :: "date \<Rightarrow> nat" where "getDay t = nat (WeekDay t)"
definition getHours :: "date \<Rightarrow> int" where "getHours t = HourFromTime t"
definition getMinutes :: "date \<Rightarrow> int" where "getMinutes t = MinFromTime t"

section \<open>The schedule and the accrual functions of \<open>SalaryCounter\<close>\<close>

text \<open>
  The component's settings. \<open>dayToggles\<close> maps 0 = Sunday, ..., 6 = Saturday to the state
  of the checkbox; the hours are what \<open>parseInt\<close> left in the state, integers that nothing
  compares with each other. Every function that reads the clock in the source takes the
  clock reading \<open>now\<close> as an argument here, one reading for a whole pass.
\<close>

record schedule =
  dayToggles :: "nat \<Rightarrow> bool"
  annualSalary :: rat
  startHour :: int
  endHour :: int

definition defaultSchedule :: schedule where
  "defaultSchedule =
     \<lparr> dayToggles = (\<lambda>d. d = 1 \<or> d = 2 \<or> d = 3 \<or> d = 4 \<or> d = 5),
       annualSalary = 30000, startHour = 10, endHour = 18 \<rparr>"

definition isDayEnabled :: "schedule \<Rightarrow> date \<Rightarrow> bool" where
  "isDayEnabled s d = (let day = getDay d in dayToggles s day)"

definition todayOf :: "date \<Rightarrow> date" where
  "todayOf now = newDate (getFullYear now) (getMonth now) (getDate now) 0 0 0"

definition getWorkingHoursSoFarToday :: "schedule \<Rightarrow> date \<Rightarrow> rat" where
  "getWorkingHoursSoFarToday s now =
     (let today = todayOf now in
      if \<not> isDayEnabled s today then 0
      else
        let startOfWork = newDate (getFullYear today) (getMonth today) (getDate today)
                            (startHour s) 0 0;
            endOfWork = newDate (getFullYear today) (getMonth today) (getDate today)
                            (endHour s) 0 0
        in if now < startOfWork then 0
           else if now > endOfWork then of_int (endHour s - startHour s)
           else
             let msSinceStart = now - startOfWork;
                 hoursSinceStart = of_int msSinceStart / 1000 / 3600
             in hoursSinceStart)"

definition getDailyWorkingHours :: "schedule \<Rightarrow> int" where
  "getDailyWorkingHours s = endHour s - startHour s"

text \<open>The body of the loop of \<open>getWorkingHoursSoFarThisMonth\<close>: \<open>totalHours\<close> after the
  iteration for \<open>day\<close>.\<close>

definition soFarBody :: "schedule \<Rightarrow> date \<Rightarrow> int \<Rightarrow> rat \<Rightarrow> rat" where
  "soFarBody s now day totalHours =
     (let year = getFullYear now; month = getMonth now;
          currentDayDate = newDate year month day 0 0 0 in
      if \<not> isDayEnabled s currentDayDate then totalHours
      else
        let dailyHours = endHour s - startHour s in
        if day < getDate now then totalHours + of_int dailyHours
        else if day = getDate now then
          (let startOfWork = newDate year month day (startHour s) 0 0;
               endOfWork = newDate year month day (endHour s) 0 0
           in if now < startOfWork then totalHours
              else if now > endOfWork then totalHours + of_int dailyHours
              else
                let msSinceStart = now - startOfWork;
                    hoursSinceStart = of_int msSinceStart / 1000 / 3600
                in totalHours + hoursSinceStart)
        else totalHours)"

function soFarLoop :: "schedule \<Rightarrow> date \<Rightarrow> int \<Rightarrow> rat \<Rightarrow> rat" where
  "soFarLoop s now day totalHours =
     (if day \<le> getDate now then soFarLoop s now (day + 1) (soFarBody s now day totalHours)
      else totalHours)"
  by pat_completeness auto
termination
  by (relation "measure (\<lambda>(s, now, day, totalHours). nat (getDate now + 1 - day))") auto

definition getWorkingHoursSoFarThisMonth :: "schedule \<Rightarrow> date \<Rightarrow> rat" where
  "getWorkingHoursSoFarThisMonth s now = soFarLoop s now 1 0"

function totalLoop :: "schedule \<Rightarrow> int \<Rightarrow> int \<Rightarrow> int \<Rightarrow> int \<Rightarrow> int \<Rightarrow> int" where
  "totalLoop s year month daysInMonth day workingHours =
     (if day \<le> daysInMonth then
        (let currentDayDate = newDate year month day 0 0 0 in
         totalLoop s year month daysInMonth (day + 1)
           (if isDayEnabled s currentDayDate then workingHours + (endHour s - startHour s)
            else workingHours))
      else workingHours)"
  by pat_completeness auto
termination
  by (relation "measure (\<lambda>(s, year, month, daysInMonth, day, w). nat (daysInMonth + 1 - day))")
    auto

definition daysInMonthOf :: "date \<Rightarrow> int" where
  "daysInMonthOf now =
     (let year = getFullYear now; month = getMonth now;
          startOfNextMonth = newDate year (month + 1) 1 0 0 0;
          lastDayOfMonth = startOfNextMonth - 1
      in getDate lastDayOfMonth)"

definition getTotalWorkingHoursThisMonth :: "schedule \<Rightarrow> date \<Rightarrow> int" where
  "getTotalWorkingHoursThisMonth s now =
     (let year = getFullYear now; month = getMonth now;
          daysInMonth = daysInMonthOf now
      in totalLoop s year month daysInMonth 1 0)"

function daysLoop :: "schedule \<Rightarrow> nat \<Rightarrow> int \<Rightarrow> int" where
  "daysLoop s day workingDays =
     (if day < 7 then daysLoop s (day + 1) (if dayToggles s day then workingDays + 1 else workingDays)
      else workingDays)"
  by pat_completeness auto
termination
  by (relation "measure (\<lambda>(s, day, w). 7 - day)") auto

definition getTotalWorkingDaysPerYear :: "schedule \<Rightarrow> int" where
  "getTotalWorkingDaysPerYear s = daysLoop s 0 0 * 52"

definition calculateDailyEarnings :: "schedule \<Rightarrow> date \<Rightarrow> rat \<Rightarrow> number" where
  "calculateDailyEarnings s now annual =
     (let today = todayOf now in
      if \<not> isDayEnabled s today then Num 0
      else
        let totalWorkingDaysPerYear = getTotalWorkingDaysPerYear s;
            dailyRate = (if totalWorkingDaysPerYear > 0
                         then js_div annual (of_int totalWorkingDaysPerYear) else Num 0);
            totalDailyWorkingHours = getDailyWorkingHours s;
            elapsedHours = getWorkingHoursSoFarToday s now
        in if totalDailyWorkingHours = 0 then Num 0
           else
             let fraction = Math_max (Num 0) (Math_min (Num 1)
                              (js_div elapsedHours (of_int totalDailyWorkingHours)))
             in js_mul dailyRate fraction)"

definition calculateEarnings :: "schedule \<Rightarrow> date \<Rightarrow> rat \<Rightarrow> number" where
  "calculateEarnings s now annual =
     (let monthly = annual / 12;
          totalWorkingHours = getTotalWorkingHoursThisMonth s now;
          elapsedHours = getWorkingHoursSoFarThisMonth s now
      in if totalWorkingHours = 0 then Num 0
         else
           let fraction = Math_max (Num 0) (Math_min (Num 1)
                            (js_div elapsedHours (of_int totalWorkingHours)))
           in js_mul (Num monthly) fraction)"

definition isCurrentlyInWorkHours :: "schedule \<Rightarrow> date \<Rightarrow> bool" where
  "isCurrentlyInWorkHours s now =
     (let today = todayOf now in
      if \<not> isDayEnabled s today then False
      else
        let currentHour = getHours now; currentMinute = getMinutes now;
            currentTimeInHours = (of_int currentHour :: rat) + of_int currentMinute / 60
        in currentTimeInHours \<ge> of_int (startHour s) \<and> currentTimeInHours < of_int (endHour s))"

definition earnedPerSecond :: "schedule \<Rightarrow> date \<Rightarrow> number" where
  "earnedPerSecond s now =
     (let monthlySalaryRaw = annualSalary s / 12;
          totalWorkHours = getTotalWorkingHoursThisMonth s now;
          totalWorkSeconds = totalWorkHours * 3600
      in if totalWorkSeconds > 0 then js_div monthlySalaryRaw (of_int totalWorkSeconds)
         else Num 0)"


section \<open>Rounding to a double\<close>

text \<open>
  The result of an arithmetic operation on doubles is the exact result rounded to the
  nearest number with a 53-bit significand, a tie going to the even significand.
  \<open>round_double\<close> is that rounding on the rationals; numbers too large or too small for
  the exponent range of a double are outside the model. \<open>bits n\<close> is the length of \<open>n\<close> in
  binary, \<open>exponentOf x\<close> the \<open>e\<close> with \<open>2 ^ e \<le> x < 2 ^ (e + 1)\<close> for a positive \<open>x\<close>.
  \<open>exact\<close> is no rounding at all.
\<close>

function bits :: "int \<Rightarrow> int" where
  "bits n = (if n \<le> 0 then 0 else 1 + bits (n div 2))"
  by pat_completeness auto
termination
  by (relation "measure nat") auto

definition pow2 :: "int \<Rightarrow> rat" where
  "pow2 e = (if 0 \<le> e then 2 ^ nat e else 1 / 2 ^ nat (- e))"

definition exponentOf :: "rat \<Rightarrow> int" where
  "exponentOf x =
     (let (p, q) = quotient_of x;
          e0 = bits p - bits q
      in if pow2 e0 \<le> x then e0 else e0 - 1)"

definition roundHalfEven :: "rat \<Rightarrow> int" where
  "roundHalfEven q =
     (let n = \<lfloor>q\<rfloor>; d = q - of_int n in
      if d < 1 / 2 then n else if 1 / 2 < d then n + 1
      else if even n then n else n + 1)"

definition round_double :: "rat \<Rightarrow> rat" where
  "round_double x =
     (if x = 0 then 0
      else
        let m = \<bar>x\<bar>; e = exponentOf m; u = pow2 (e - 52)
        in sgn x * of_int (roundHalfEven (m / u)) * u)"

definition exact :: "rat \<Rightarrow> rat" where
  "exact x = x"

section \<open>Time zones\<close>

text \<open>
  A time zone is the offset of local time from UTC, in milliseconds, that holds before
  the first transition, and the list of transitions in ascending order, each the UTC time
  value at which a new offset starts. \<open>LocalTime\<close> and \<open>UTC\<close> are the two conversions of the
  ECMAScript language specification: a local time that occurs twice (clocks set back)
  is the earlier of its two time values, and a local time that is skipped (clocks set
  forward) is read with the offset before the transition. \<open>utcZone\<close> has no transition;
  \<open>londonZone\<close> is Europe/London in 2024, one hour ahead of UTC from 31 March 01:00 UTC
  to 27 October 01:00 UTC. The \<open>Date\<close> constructor and the methods of \<open>Date\<close> in a zone
  go through the two conversions; in \<open>utcZone\<close> they are \<open>newDate\<close>, \<open>getFullYear\<close> and
  so on of the section on dates.
\<close>

record zone =
  baseOffset :: int
  transitions :: "(int \<times> int) list"

fun offsetFrom :: "int \<Rightarrow> (int \<times> int) list \<Rightarrow> int \<Rightarrow> int" where
  "offsetFrom off [] u = off"
| "offsetFrom off ((ti, new) # ts) u = (if u < ti then off else offsetFrom new ts u)"

definition LocalTime :: "zone \<Rightarrow> int \<Rightarrow> int" where
  "LocalTime z u = u + offsetFrom (baseOffset z) (transitions z) u"

fun utcFrom :: "int \<Rightarrow> (int \<times> int) list \<Rightarrow> int \<Rightarrow> int" where
  "utcFrom off [] t = t - off"
| "utcFrom off ((ti, new) # ts) t =
     (if t < ti + off \<or> t < ti + new then t - off else utcFrom new ts t)"

definition UTC :: "zone \<Rightarrow> int \<Rightarrow> int" where
  "UTC z t = utcFrom (baseOffset z) (transitions z) t"

definition utcZone :: zone where
  "utcZone = \<lparr> baseOffset = 0, transitions = [] \<rparr>"

definition londonZone :: zone where
  "londonZone = \<lparr> baseOffset = 0,
       transitions = [(1711846800000, 3600000), (1729990800000, 0)] \<rparr>"

definition newDateIn :: "zone \<Rightarrow> int \<Rightarrow> int \<Rightarrow> int \<Rightarrow> int \<Rightarrow> int \<Rightarrow> int \<Rightarrow> date" where
  "newDateIn z y m dt h mi sec =
     (let yr = (if 0 \<le> y \<and> y \<le> 99 then 1900 + y else y) in
      UTC z (MakeDate (MakeDay yr m dt) (MakeTime h mi sec 0)))"

definition getFullYearIn :: "zone \<Rightarrow> date \<Rightarrow> int" where
  "getFullYearIn z t = YearFromTime (LocalTime z t)"

definition getMonthIn :: "zone \<Rightarrow> date \<Rightarrow> int" where
  "getMonthIn z t = MonthFromTime (LocalTime z t)"

definition getDateIn :: "zone \<Rightarrow> date \<Rightarrow> int" where
  "getDateIn z t = DateFromTime (LocalTime z t)"

definition getDayIn :: "zone \<Rightarrow> date \<Rightarrow> nat" where
  "getDayIn z t = nat (WeekDay (LocalTime z t))"

section \<open>The accrual functions with the time zone and the rounding explicit\<close>

text \<open>
  The functions of \<open>SalaryCounter\<close> once more, line by line as above, with the two things
  explicit that the first embedding fixes: the time zone \<open>z\<close> of the local clock, and the
  rounding \<open>r\<close> applied to the result of every division, multiplication and addition of
  numbers that need not be integers. Differences and sums of the integer hours stay
  exact, as they are on doubles below \<open>2 ^ 53\<close>. In \<open>utcZone\<close> and with \<open>exact\<close> these are the
  functions of the first embedding (lemmas \<open>getWorkingHoursSoFarTodayIn_utcZone\<close>,
  \<open>calculateEarningsIn_utcZone\<close>, \<open>calculateDailyEarningsIn_utcZone\<close>).
\<close>

definition js_div_r :: "(rat \<Rightarrow> rat) \<Rightarrow> rat \<Rightarrow> rat \<Rightarrow> number" where
  "js_div_r r a b =
     (if b = 0 then (if a = 0 then NaN else if 0 < a then PosInf else NegInf)
      else Num (r (a / b)))"

fun js_mul_r :: "(rat \<Rightarrow> rat) \<Rightarrow> number \<Rightarrow> number \<Rightarrow> number" where
  "js_mul_r r (Num a) (Num b) = Num (r (a * b))"
| "js_mul_r r x y = js_mul x y"

fun js_neg :: "number \<Rightarrow> number" where
  "js_neg (Num a) = Num (- a)"
| "js_neg PosInf = NegInf"
| "js_neg NegInf = PosInf"
| "js_neg NaN = NaN"

definition isDayEnabledIn :: "zone \<Rightarrow> schedule \<Rightarrow> date \<Rightarrow> bool" where
  "isDayEnabledIn z s d = (let day = getDayIn z d in dayToggles s day)"

definition todayIn :: "zone \<Rightarrow> date \<Rightarrow> date" where
  "todayIn z now = newDateIn z (getFullYearIn z now) (getMonthIn z now) (getDateIn z now) 0 0 0"

definition getWorkingHoursSoFarTodayIn :: "zone \<Rightarrow> (rat \<Rightarrow> rat) \<Rightarrow> schedule \<Rightarrow> date \<Rightarrow> rat" where
  "getWorkingHoursSoFarTodayIn z r s now =
     (let today = todayIn z now in
      if \<not> isDayEnabledIn z s today then 0
      else
        let startOfWork = newDateIn z (getFullYearIn z today) (getMonthIn z today)
                            (getDateIn z today) (startHour s) 0 0;
            endOfWork = newDateIn z (getFullYearIn z today) (getMonthIn z today)
                            (getDateIn z today) (endHour s) 0 0
        in if now < startOfWork then 0
           else if now > endOfWork then of_int (endHour s - startHour s)
           else
             let msSinceStart = now - startOfWork;
                 hoursSinceStart = r (r (of_int msSinceStart / 1000) / 3600)
             in hoursSinceStart)"

definition soFarBodyIn :: "zone \<Rightarrow> (rat \<Rightarrow> rat) \<Rightarrow> schedule \<Rightarrow> date \<Rightarrow> int \<Rightarrow> rat \<Rightarrow> rat" where
  "soFarBodyIn z r s now day totalHours =
     (let year = getFullYearIn z now; month = getMonthIn z now;
          currentDayDate = newDateIn z year month day 0 0 0 in
      if \<not> isDayEnabledIn z s currentDayDate then totalHours
      else
        let dailyHours = endHour s - startHour s in
        if day < getDateIn z now then r (totalHours + of_int dailyHours)
        else if day = getDateIn z now then
          (let startOfWork = newDateIn z year month day (startHour s) 0 0;
               endOfWork = newDateIn z year month day (endHour s) 0 0
           in if now < startOfWork then totalHours
              else if now > endOfWork then r (totalHours + of_int dailyHours)
              else
                let msSinceStart = now - startOfWork;
                    hoursSinceStart = r (r (of_int msSinceStart / 1000) / 3600)
                in r (totalHours + hoursSinceStart))
        else totalHours)"

function soFarLoopIn :: "zone \<Rightarrow> (rat \<Rightarrow> rat) \<Rightarrow> schedule \<Rightarrow> date \<Rightarrow> int \<Rightarrow> rat \<Rightarrow> rat" where
  "soFarLoopIn z r s now day totalHours =
     (if day \<le> getDateIn z now
      then soFarLoopIn z r s now (day + 1) (soFarBodyIn z r s now day totalHours)
      else totalHours)"
  by pat_completeness auto
termination
  by (relation "measure (\<lambda>(z, r, s, now, day, totalHours). nat (getDateIn z now + 1 - day))") auto

definition getWorkingHoursSoFarThisMonthIn :: "zone \<Rightarrow> (rat \<Rightarrow> rat) \<Rightarrow> schedule \<Rightarrow> date \<Rightarrow> rat" where
  "getWorkingHoursSoFarThisMonthIn z r s now = soFarLoopIn z r s now 1 0"

function totalLoopIn :: "zone \<Rightarrow> schedule \<Rightarrow> int \<Rightarrow> int \<Rightarrow> int \<Rightarrow> int \<Rightarrow> int \<Rightarrow> int" where
  "totalLoopIn z s year month daysInMonth day workingHours =
     (if day \<le> daysInMonth then
        (let currentDayDate = newDateIn z year month day 0 0 0 in
         totalLoopIn z s year month daysInMonth (day + 1)
           (if isDayEnabledIn z s currentDayDate then workingHours + (endHour s - startHour s)
            else workingHours))
      else workingHours)"
  by pat_completeness auto
termination
  by (relation "measure (\<lambda>(z, s, year, month, daysInMonth, day, w). nat (daysInMonth + 1 - day))")
    auto

definition daysInMonthIn :: "zone \<Rightarrow> date \<Rightarrow> int" where
  "daysInMonthIn z now =
     (let year = getFullYearIn z now; month = getMonthIn z now;
          startOfNextMonth = newDateIn z year (month + 1) 1 0 0 0;
          lastDayOfMonth = startOfNextMonth - 1
      in getDateIn z lastDayOfMonth)"

definition getTotalWorkingHoursThisMonthIn :: "zone \<Rightarrow> schedule \<Rightarrow> date \<Rightarrow> int" where
  "getTotalWorkingHoursThisMonthIn z s now =
     (let year = getFullYearIn z now; month = getMonthIn z now;
          daysInMonth = daysInMonthIn z now
      in totalLoopIn z s year month daysInMonth 1 0)"

definition calculateDailyEarningsIn :: "zone \<Rightarrow> (rat \<Rightarrow> rat) \<Rightarrow> schedule \<Rightarrow> date \<Rightarrow> rat \<Rightarrow> number" where
  "calculateDailyEarningsIn z r s now annual =
     (let today = todayIn z now in
      if \<not> isDayEnabledIn z s today then Num 0
      else
        let totalWorkingDaysPerYear = getTotalWorkingDaysPerYear s;
            dailyRate = (if totalWorkingDaysPerYear > 0
                         then js_div_r r annual (of_int totalWorkingDaysPerYear) else Num 0);
            totalDailyWorkingHours = getDailyWorkingHours s;
            elapsedHours = getWorkingHoursSoFarTodayIn z r s now
        in if totalDailyWorkingHours = 0 then Num 0
           else
             let fraction = Math_max (Num 0) (Math_min (Num 1)
                              (js_div_r r elapsedHours (of_int totalDailyWorkingHours)))
             in js_mul_r r dailyRate fraction)"

definition calculateEarningsIn :: "zone \<Rightarrow> (rat \<Rightarrow> rat) \<Rightarrow> schedule \<Rightarrow> date \<Rightarrow> rat \<Rightarrow> number" where
  "calculateEarningsIn z r s now annual =
     (let monthly = r (annual / 12);
          totalWorkingHours = getTotalWorkingHoursThisMonthIn z s now;
          elapsedHours = getWorkingHoursSoFarThisMonthIn z r s now
      in if totalWorkingHours = 0 then Num 0
         else
           let fraction = Math_max (Num 0) (Math_min (Num 1)
                            (js_div_r r elapsedHours (of_int totalWorkingHours)))
           in js_mul_r r (Num monthly) fraction)"

section \<open>Quantities the specification names\<close>

text \<open>
  The source has no function for the two fractions: each is the local \<open>fraction\<close> of
  \<open>calculateEarnings\<close> and of \<open>calculateDailyEarnings\<close>. The next two definitions follow the
  words of the specification (the quotient clamped to the unit interval, and 0 where the
  denominator is 0 or, for the daily one, where today is not a working day); the lemmas
  \<open>calculateEarnings_eq\<close> and \<open>calculateDailyEarnings_eq\<close> compare them with the source.
\<close>

definition spec_monthlyFraction :: "schedule \<Rightarrow> date \<Rightarrow> number" where
  "spec_monthlyFraction s now =
     (if getTotalWorkingHoursThisMonth s now = 0 then Num 0
      else Math_max (Num 0) (Math_min (Num 1)
             (js_div (getWorkingHoursSoFarThisMonth s now)
                     (of_int (getTotalWorkingHoursThisMonth s now)))))"

definition spec_dailyFraction :: "schedule \<Rightarrow> date \<Rightarrow> number" where
  "spec_dailyFraction s now =
     (if getDailyWorkingHours s = 0 \<or> \<not> isDayEnabled s (todayOf now) then Num 0
      else Math_max (Num 0) (Math_min (Num 1)
             (js_div (getWorkingHoursSoFarToday s now) (of_int (getDailyWorkingHours s)))))"

text \<open>
  The summand of the specification's \<open>elapsedHoursThisMonth\<close> for one day of the month, in
  its words: 0 for a day that is not a working day, the full daily hours for a working
  day strictly before today, the hours so far today for today itself.
\<close>

definition spec_dayHours :: "schedule \<Rightarrow> date \<Rightarrow> int \<Rightarrow> rat" where
  "spec_dayHours s now day =
     (if \<not> isDayEnabled s (newDate (getFullYear now) (getMonth now) day 0 0 0) then 0
      else if day < getDate now then of_int (getDailyWorkingHours s)
      else getWorkingHoursSoFarToday s now)"

text \<open>The local \<open>dailyRate\<close> of \<open>calculateDailyEarnings\<close>.\<close>

definition dailyRate :: "schedule \<Rightarrow> rat \<Rightarrow> number" where
  "dailyRate s annual =
     (if getTotalWorkingDaysPerYear s > 0
      then js_div annual (of_int (getTotalWorkingDaysPerYear s)) else Num 0)"

text \<open>The locals \<open>startOfWork\<close> and \<open>endOfWork\<close> of \<open>getWorkingHoursSoFarToday\<close>: the two
  boundaries of today's work window.\<close>

definition startOfWork :: "schedule \<Rightarrow> date \<Rightarrow> date" where
  "startOfWork s now =
     (let today = todayOf now in
      newDate (getFullYear today) (getMonth today) (getDate today) (startHour s) 0 0)"

definition endOfWork :: "schedule \<Rightarrow> date \<Rightarrow> date" where
  "endOfWork s now =
     (let today = todayOf now in
      newDate (getFullYear today) (getMonth today) (getDate today) (endHour s) 0 0)"

text \<open>
  The locals \<open>startOfWork\<close> and \<open>endOfWork\<close>, the two fractions in the words of the
  specification and the local \<open>dailyRate\<close>, for the functions with zone and rounding.
\<close>

definition startOfWorkIn :: "zone \<Rightarrow> schedule \<Rightarrow> date \<Rightarrow> date" where
  "startOfWorkIn z s now =
     (let today = todayIn z now in
      newDateIn z (getFullYearIn z today) (getMonthIn z today) (getDateIn z today)
        (startHour s) 0 0)"

definition endOfWorkIn :: "zone \<Rightarrow> schedule \<Rightarrow> date \<Rightarrow> date" where
  "endOfWorkIn z s now =
     (let today = todayIn z now in
      newDateIn z (getFullYearIn z today) (getMonthIn z today) (getDateIn z today)
        (endHour s) 0 0)"

definition spec_monthlyFractionIn :: "zone \<Rightarrow> (rat \<Rightarrow> rat) \<Rightarrow> schedule \<Rightarrow> date \<Rightarrow> number" where
  "spec_monthlyFractionIn z r s now =
     (if getTotalWorkingHoursThisMonthIn z s now = 0 then Num 0
      else Math_max (Num 0) (Math_min (Num 1)
             (js_div_r r (getWorkingHoursSoFarThisMonthIn z r s now)
                     (of_int (getTotalWorkingHoursThisMonthIn z s now)))))"

definition spec_dailyFractionIn :: "zone \<Rightarrow> (rat \<Rightarrow> rat) \<Rightarrow> schedule \<Rightarrow> date \<Rightarrow> number" where
  "spec_dailyFractionIn z r s now =
     (if getDailyWorkingHours s = 0 \<or> \<not> isDayEnabledIn z s (todayIn z now) then Num 0
      else Math_max (Num 0) (Math_min (Num 1)
             (js_div_r r (getWorkingHoursSoFarTodayIn z r s now)
                     (of_int (getDailyWorkingHours s)))))"

definition dailyRateIn :: "(rat \<Rightarrow> rat) \<Rightarrow> schedule \<Rightarrow> rat \<Rightarrow> number" where
  "dailyRateIn r s annual =
     (if getTotalWorkingDaysPerYear s > 0
      then js_div_r r annual (of_int (getTotalWorkingDaysPerYear s)) else Num 0)"

section \<open>Concrete schedules and clock readings\<close>

text \<open>Wednesday 3 January 2024 at several times of the day, and Sunday 7 January 2024.\<close>

definition wed_14_00 :: date where "wed_14_00 = newDate 2024 0 3 14 0 0"
definition wed_19_00 :: date where "wed_19_00 = newDate 2024 0 3 19 0 0"
definition sun_14_00 :: date where "sun_14_00 = newDate 2024 0 7 14 0 0"

text \<open>Wednesday 5 June 2024 at 14:00; 1 June 2024 is a Saturday.\<close>

definition wed_jun_14_00 :: date where "wed_jun_14_00 = newDate 2024 5 5 14 0 0"

definition invertedSchedule :: schedule where
  "invertedSchedule = defaultSchedule \<lparr> startHour := 18, endHour := 10 \<rparr>"

definition allOffSchedule :: schedule where
  "allOffSchedule = defaultSchedule \<lparr> dayToggles := (\<lambda>d. False) \<rparr>"

definition emptyWindowSchedule :: schedule where
  "emptyWindowSchedule = defaultSchedule \<lparr> startHour := 9, endHour := 9 \<rparr>"

text \<open>
  A schedule with every day on and the window 0 to 18, and clock readings in London:
  Wednesday 3 January and Sunday 7 January 2024, and Sunday 27 October 2024, the day
  the clocks go back, on which local midnight and 18:00 are 19 hours apart.
\<close>

definition everyDaySchedule :: schedule where
  "everyDaySchedule =
     \<lparr> dayToggles = (\<lambda>d. True), annualSalary = 30000, startHour = 0, endHour = 18 \<rparr>"

definition jan3_09_00 :: date where "jan3_09_00 = newDateIn londonZone 2024 0 3 9 0 0"

definition jan3_12_00 :: date where "jan3_12_00 = newDateIn londonZone 2024 0 3 12 0 0"

definition jan3_14_00 :: date where "jan3_14_00 = newDateIn londonZone 2024 0 3 14 0 0"

definition jan3_18_00 :: date where "jan3_18_00 = newDateIn londonZone 2024 0 3 18 0 0"

definition jan3_19_00 :: date where "jan3_19_00 = newDateIn londonZone 2024 0 3 19 0 0"

definition jan7_14_00 :: date where "jan7_14_00 = newDateIn londonZone 2024 0 7 14 0 0"

definition dstEnd_17_30 :: date where "dstEnd_17_30 = newDateIn londonZone 2024 9 27 17 30 0"

definition dstEnd_18_00 :: date where "dstEnd_18_00 = newDateIn londonZone 2024 9 27 18 0 0"

definition dstEnd_18_30 :: date where "dstEnd_18_30 = newDateIn londonZone 2024 9 27 18 30 0"

section \<open>Helper lemmas\<close>

declare daysLoop.simps [simp del] soFarLoop.simps [simp del] totalLoop.simps [simp del]

declare soFarLoopIn.simps [simp del] totalLoopIn.simps [simp del] bits.simps [simp del]

lemma clamp_Num:
  "b \<noteq> 0 \<Longrightarrow> Math_max (Num 0) (Math_min (Num 1) (js_div a b)) = Num (max 0 (min 1 (a / b)))"
  by (simp add: js_div_def)

lemma getDay_less_7: "getDay d < 7"
  by (simp add: getDay_def WeekDay_def nat_less_iff)

lemma daysLoop_card:
  "day \<le> 7 \<Longrightarrow> daysLoop s day w = w + int (card {d. day \<le> d \<and> d < 7 \<and> dayToggles s d})"
proof (induction s day w rule: daysLoop.induct)
  case (1 s day w)
  show ?case
  proof (cases "day < 7")
    case True
    have split: "{d. day \<le> d \<and> d < 7 \<and> dayToggles s d}
        = (if dayToggles s day then {day} else {}) \<union> {d. day + 1 \<le> d \<and> d < 7 \<and> dayToggles s d}"
      using True by (auto simp: Suc_le_eq le_less)
    have fin: "finite {d. day + 1 \<le> d \<and> d < 7 \<and> dayToggles s d}" by simp
    have "card {d. day \<le> d \<and> d < 7 \<and> dayToggles s d}
        = (if dayToggles s day then 1 else 0) + card {d. day + 1 \<le> d \<and> d < 7 \<and> dayToggles s d}"
      by (subst split) (simp add: fin)
    moreover have "daysLoop s (day + 1) (if dayToggles s day then w + 1 else w)
        = (if dayToggles s day then w + 1 else w)
          + int (card {d. day + 1 \<le> d \<and> d < 7 \<and> dayToggles s d})"
      using "1.IH" True by simp
    ultimately show ?thesis using True by (subst daysLoop.simps) simp
  next
    case False
    with "1.prems" have "day = 7" by simp
    then show ?thesis by (subst daysLoop.simps) simp
  qed
qed

lemma getTotalWorkingDaysPerYear_card:
  "getTotalWorkingDaysPerYear s = int (card {d. d < 7 \<and> dayToggles s d}) * 52"
  by (simp add: getTotalWorkingDaysPerYear_def daysLoop_card)

lemma enabled_imp_days_pos:
  assumes "isDayEnabled s d"
  shows "0 < getTotalWorkingDaysPerYear s"
proof -
  have "getDay d \<in> {d. d < 7 \<and> dayToggles s d}"
    using assms getDay_less_7 by (simp add: isDayEnabled_def)
  moreover have "finite {d. d < 7 \<and> dayToggles s d}" by simp
  ultimately have "0 < card {d. d < 7 \<and> dayToggles s d}"
    using card_gt_0_iff by blast
  then show ?thesis by (simp add: getTotalWorkingDaysPerYear_card)
qed

lemma calculateEarnings_eq:
  "calculateEarnings s now a = js_mul (Num (a / 12)) (spec_monthlyFraction s now)"
  by (simp add: calculateEarnings_def spec_monthlyFraction_def Let_def)

lemma spec_monthlyFraction_Num:
  "spec_monthlyFraction s now =
     Num (if getTotalWorkingHoursThisMonth s now = 0 then 0
          else max 0 (min 1 (getWorkingHoursSoFarThisMonth s now
                               / of_int (getTotalWorkingHoursThisMonth s now))))"
  by (simp add: spec_monthlyFraction_def clamp_Num)

lemma spec_dailyFraction_Num:
  "spec_dailyFraction s now =
     Num (if getDailyWorkingHours s = 0 \<or> \<not> isDayEnabled s (todayOf now) then 0
          else max 0 (min 1 (getWorkingHoursSoFarToday s now
                               / of_int (getDailyWorkingHours s))))"
  by (simp add: spec_dailyFraction_def clamp_Num)

lemma dailyRate_Num:
  "dailyRate s a = Num (if getTotalWorkingDaysPerYear s > 0
                        then a / of_int (getTotalWorkingDaysPerYear s) else 0)"
  by (simp add: dailyRate_def js_div_def)

lemma calculateDailyEarnings_eq:
  "calculateDailyEarnings s now a = js_mul (dailyRate s a) (spec_dailyFraction s now)"
  by (simp add: calculateDailyEarnings_def spec_dailyFraction_def dailyRate_def Let_def js_div_def)

lemma getWorkingHoursSoFarToday_alt:
  "getWorkingHoursSoFarToday s now =
     (if \<not> isDayEnabled s (todayOf now) then 0
      else if now < startOfWork s now then 0
      else if now > endOfWork s now then of_int (endHour s - startHour s)
      else of_int (now - startOfWork s now) / 1000 / 3600)"
  by (simp add: getWorkingHoursSoFarToday_def startOfWork_def endOfWork_def Let_def)

lemma totalLoop_all_off:
  "\<forall>d<7. \<not> dayToggles s d \<Longrightarrow> totalLoop s year month daysInMonth day w = w"
proof (induction s year month daysInMonth day w rule: totalLoop.induct)
  case (1 s year month daysInMonth day w)
  then show ?case
    by (subst totalLoop.simps) (simp add: isDayEnabled_def getDay_less_7)
qed

subsection \<open>The calendar\<close>

lemma int_div_lower: "(0::int) < n \<Longrightarrow> n * (x div n) \<le> x"
  using mult_div_mod_eq [of n x] pos_mod_sign [of n x] by linarith

lemma int_div_upper: "(0::int) < n \<Longrightarrow> x < n * (x div n) + n"
  using mult_div_mod_eq [of n x] pos_mod_bound [of n x] by linarith

lemma DayFromYear_lower_bound: "146097 * k - 800 \<le> 400 * DayFromYear (k + 1970)"
proof -
  have "4 * ((k + 1) div 4) + 4 > k + 1" by (rule int_div_upper) simp
  moreover have "100 * ((k + 69) div 100) \<le> k + 69" by (rule int_div_lower) simp
  moreover have "400 * ((k + 369) div 400) + 400 > k + 369" by (rule int_div_upper) simp
  moreover have "DayFromYear (k + 1970) =
      365 * k + (k + 1) div 4 - (k + 69) div 100 + (k + 369) div 400"
    unfolding DayFromYear_def by (simp add: add.commute)
  ultimately show ?thesis by linarith
qed

lemma DayFromYear_upper_bound: "400 * DayFromYear (k + 1970) \<le> 146097 * k + 800"
proof -
  have "4 * ((k + 1) div 4) \<le> k + 1" by (rule int_div_lower) simp
  moreover have "100 * ((k + 69) div 100) + 100 > k + 69" by (rule int_div_upper) simp
  moreover have "400 * ((k + 369) div 400) \<le> k + 369" by (rule int_div_lower) simp
  moreover have "DayFromYear (k + 1970) =
      365 * k + (k + 1) div 4 - (k + 69) div 100 + (k + 369) div 400"
    unfolding DayFromYear_def by (simp add: add.commute)
  ultimately show ?thesis by linarith
qed

lemma DayFromYear_mono: "y \<le> y' \<Longrightarrow> DayFromYear y \<le> DayFromYear y'"
proof (cases "y = y'")
  case True
  then show ?thesis by simp
next
  case False
  assume "y \<le> y'"
  define k where "k = y - 1970"
  define k' where "k' = y' - 1970"
  have "k + 1 \<le> k'" using False \<open>y \<le> y'\<close> by (simp add: k_def k'_def)
  then have "DayFromYear (k + 1970) \<le> DayFromYear (k' + 1970)"
    using DayFromYear_upper_bound [of k] DayFromYear_lower_bound [of k'] by linarith
  then show ?thesis by (simp add: k_def k'_def)
qed

lemma YearFromDay_lower: "DayFromYear (YearFromDay d) \<le> d"
proof -
  define q where "q = (400 * d) div 146097"
  define k where "k = q - 1"
  have "146097 * q \<le> 400 * d" unfolding q_def by (rule int_div_lower) simp
  then have "DayFromYear (k + 1970) \<le> d"
    using DayFromYear_upper_bound [of k] k_def by linarith
  moreover have "k + 1970 = 1970 + q - 1" by (simp add: k_def)
  ultimately have "DayFromYear (1970 + q - 1) \<le> d" by simp
  then show ?thesis
    unfolding YearFromDay_def Let_def q_def [symmetric] by simp
qed

lemma YearFromDay_upper: "d < DayFromYear (YearFromDay d + 1)"
proof -
  define q where "q = (400 * d) div 146097"
  define k where "k = q + 2"
  have "400 * d < 146097 * q + 146097" unfolding q_def by (rule int_div_upper) simp
  then have "d < DayFromYear (k + 1970)"
    using DayFromYear_lower_bound [of k] k_def by linarith
  moreover have "k + 1970 = 1970 + q + 1 + 1" by (simp add: k_def)
  ultimately have "d < DayFromYear (1970 + q + 1 + 1)" by simp
  then show ?thesis
    unfolding YearFromDay_def Let_def q_def [symmetric] by simp
qed

lemma MonthFromTime_range: "0 \<le> MonthFromTime t \<and> MonthFromTime t \<le> 11"
  by (simp add: MonthFromTime_def Let_def)

lemma MonthStart_nonneg: "0 \<le> MonthStart leap m"
  by (simp add: MonthStart_def Let_def)

lemma DayWithinYear_nonneg: "0 \<le> DayWithinYear t"
  using YearFromDay_lower [of "Day t"] by (simp add: DayWithinYear_def YearFromTime_def)

lemma MonthStart_MonthFromTime_le:
  "MonthStart (InLeapYear t) (MonthFromTime t) \<le> DayWithinYear t"
  using DayWithinYear_nonneg [of t]
  by (simp add: MonthStart_def MonthFromTime_def Let_def)

lemma DateFromTime_pos: "1 \<le> DateFromTime t"
  using MonthStart_MonthFromTime_le [of t] by (simp add: DateFromTime_def)

lemma MakeDay_getters: "MakeDay (YearFromTime t) (MonthFromTime t) (DateFromTime t) = Day t"
proof -
  have "MonthFromTime t div 12 = 0" "MonthFromTime t mod 12 = MonthFromTime t"
    using MonthFromTime_range [of t] by simp_all
  then show ?thesis
    by (simp add: MakeDay_def Let_def DateFromTime_def DayWithinYear_def InLeapYear_def)
qed

lemma MakeDay_add: "MakeDay y m (dt + k) = MakeDay y m dt + k"
  by (simp add: MakeDay_def Let_def)

lemma YearFromDay_ge_1900:
  assumes "DayFromYear 1900 \<le> d"
  shows "1900 \<le> YearFromDay d"
proof (rule ccontr)
  assume "\<not> 1900 \<le> YearFromDay d"
  then have "YearFromDay d + 1 \<le> 1900" by simp
  then have "DayFromYear (YearFromDay d + 1) \<le> DayFromYear 1900"
    by (rule DayFromYear_mono)
  with assms YearFromDay_upper [of d] show False by linarith
qed

lemma newDay_plain: "\<not> (0 \<le> y \<and> y \<le> 99) \<Longrightarrow> newDay y m dt = MakeDay y m dt"
  by (auto simp: newDay_def)

lemma newDate_newDay: "newDate y m dt h mi sec = newDay y m dt * msPerDay + MakeTime h mi sec 0"
  by (simp add: newDate_def newDay_def MakeDate_def Let_def)

lemma Day_todayOf: "Day (todayOf now) = newDay (getFullYear now) (getMonth now) (getDate now)"
  by (simp add: todayOf_def newDate_newDay MakeTime_def Day_def msPerDay_def)

lemma todayOf_year_not_two_digit:
  "\<not> (0 \<le> getFullYear (todayOf now) \<and> getFullYear (todayOf now) \<le> 99)"
proof (cases "0 \<le> getFullYear now \<and> getFullYear now \<le> 99")
  case True
  have m: "getMonth now div 12 = 0" "getMonth now mod 12 = getMonth now"
    using MonthFromTime_range [of now] by (simp_all add: getMonth_def)
  have "DayFromYear 1900 \<le> DayFromYear (1900 + getFullYear now)"
    using True by (intro DayFromYear_mono) simp
  moreover have "Day (todayOf now) =
      DayFromYear (1900 + getFullYear now)
      + MonthStart (DaysInYear (1900 + getFullYear now) = 366) (getMonth now) + getDate now - 1"
    using True by (simp add: Day_todayOf newDay_def MakeDay_def Let_def m)
  ultimately have "DayFromYear 1900 \<le> Day (todayOf now)"
    using MonthStart_nonneg [of "DaysInYear (1900 + getFullYear now) = 366" "getMonth now"]
      DateFromTime_pos [of now]
    by (simp add: getDate_def)
  then have "1900 \<le> YearFromDay (Day (todayOf now))" by (rule YearFromDay_ge_1900)
  then show ?thesis by (simp add: getFullYear_def YearFromTime_def)
next
  case False
  then have "newDay (getFullYear now) (getMonth now) (getDate now)
      = MakeDay (getFullYear now) (getMonth now) (getDate now)"
    by (rule newDay_plain)
  then have "Day (todayOf now) = Day now"
    by (simp add: Day_todayOf getFullYear_def getMonth_def getDate_def MakeDay_getters)
  then have "getFullYear (todayOf now) = getFullYear now"
    by (simp add: getFullYear_def YearFromTime_def)
  with False show ?thesis by simp
qed

lemma newDate_of_todayOf:
  "newDate (getFullYear (todayOf now)) (getMonth (todayOf now)) (getDate (todayOf now)) h mi sec
     = newDate (getFullYear now) (getMonth now) (getDate now) h mi sec"
proof -
  have "newDay (getFullYear (todayOf now)) (getMonth (todayOf now)) (getDate (todayOf now))
      = MakeDay (getFullYear (todayOf now)) (getMonth (todayOf now)) (getDate (todayOf now))"
    using todayOf_year_not_two_digit [of now] by (rule newDay_plain)
  then have "newDay (getFullYear (todayOf now)) (getMonth (todayOf now)) (getDate (todayOf now))
      = Day (todayOf now)"
    by (simp add: getFullYear_def getMonth_def getDate_def MakeDay_getters)
  then show ?thesis
    by (simp add: newDate_newDay Day_todayOf)
qed

subsection \<open>The loop over the days of the month\<close>

lemma startOfWork_eq: "startOfWork s now = todayOf now + startHour s * msPerHour"
  by (simp add: startOfWork_def Let_def newDate_of_todayOf)
     (simp add: todayOf_def newDate_newDay MakeTime_def)

lemma endOfWork_eq: "endOfWork s now = todayOf now + endHour s * msPerHour"
  by (simp add: endOfWork_def Let_def newDate_of_todayOf)
     (simp add: todayOf_def newDate_newDay MakeTime_def)

lemma soFarBody_eq:
  assumes "day \<le> getDate now"
  shows "soFarBody s now day t = t + spec_dayHours s now day"
proof (cases "day < getDate now")
  case True
  then show ?thesis
    by (simp add: soFarBody_def spec_dayHours_def Let_def getDailyWorkingHours_def)
next
  case False
  with assms have d: "day = getDate now" by simp
  have td: "newDate (getFullYear now) (getMonth now) (getDate now) 0 0 0 = todayOf now"
    by (simp add: todayOf_def)
  have st: "newDate (getFullYear now) (getMonth now) (getDate now) (startHour s) 0 0
      = startOfWork s now"
    by (simp add: startOfWork_def Let_def newDate_of_todayOf)
  have en: "newDate (getFullYear now) (getMonth now) (getDate now) (endHour s) 0 0
      = endOfWork s now"
    by (simp add: endOfWork_def Let_def newDate_of_todayOf)
  show ?thesis
    unfolding d soFarBody_def spec_dayHours_def Let_def td st en getWorkingHoursSoFarToday_alt
    by simp
qed

lemma int_interval_insert: "(a::int) \<le> b \<Longrightarrow> {a..b} = insert a {a + 1..b}"
  by auto

lemma soFarLoop_sum:
  "soFarLoop s now day t = t + (\<Sum>d = day..getDate now. spec_dayHours s now d)"
proof (induction s now day t rule: soFarLoop.induct)
  case (1 s now day t)
  show ?case
  proof (cases "day \<le> getDate now")
    case True
    have "(\<Sum>d = day..getDate now. spec_dayHours s now d)
        = spec_dayHours s now day + (\<Sum>d = day + 1..getDate now. spec_dayHours s now d)"
      by (subst int_interval_insert [OF True]) simp
    moreover have "soFarLoop s now (day + 1) (soFarBody s now day t)
        = soFarBody s now day t + (\<Sum>d = day + 1..getDate now. spec_dayHours s now d)"
      using "1.IH" True by simp
    ultimately show ?thesis
      using True by (subst soFarLoop.simps) (simp add: soFarBody_eq)
  next
    case False
    then show ?thesis by (subst soFarLoop.simps) simp
  qed
qed

lemma getWorkingHoursSoFarThisMonth_eq:
  "getWorkingHoursSoFarThisMonth s now = (\<Sum>d = 1..getDate now. spec_dayHours s now d)"
  by (simp add: getWorkingHoursSoFarThisMonth_def soFarLoop_sum)

lemma todayOf_eq:
  assumes "\<not> (0 \<le> getFullYear now \<and> getFullYear now \<le> 99)"
  shows "todayOf now = Day now * msPerDay"
proof -
  have "newDay (getFullYear now) (getMonth now) (getDate now)
      = MakeDay (getFullYear now) (getMonth now) (getDate now)"
    using assms by (rule newDay_plain)
  then show ?thesis
    by (simp add: todayOf_def newDate_newDay MakeTime_def getFullYear_def getMonth_def
        getDate_def MakeDay_getters)
qed

lemma isDayEnabled_todayOf:
  assumes "\<not> (0 \<le> getFullYear now \<and> getFullYear now \<le> 99)"
  shows "isDayEnabled s (todayOf now) = dayToggles s (getDay now)"
proof -
  have "Day (Day now * msPerDay) = Day now" by (simp add: Day_def msPerDay_def)
  then show ?thesis
    by (simp add: isDayEnabled_def getDay_def WeekDay_def todayOf_eq [OF assms])
qed

lemma newDate_day_of_month:
  assumes "\<not> (0 \<le> getFullYear now \<and> getFullYear now \<le> 99)"
  shows "newDate (getFullYear now) (getMonth now) day 0 0 0
      = (Day now + (day - getDate now)) * msPerDay"
proof -
  have "newDay (getFullYear now) (getMonth now) day
      = MakeDay (getFullYear now) (getMonth now) (getDate now + (day - getDate now))"
    using newDay_plain [OF assms] by simp
  also have "\<dots> = MakeDay (getFullYear now) (getMonth now) (getDate now) + (day - getDate now)"
    by (rule MakeDay_add)
  also have "\<dots> = Day now + (day - getDate now)"
    by (simp add: getFullYear_def getMonth_def getDate_def MakeDay_getters)
  finally show ?thesis by (simp add: newDate_newDay MakeTime_def)
qed

lemma getDay_day_of_month:
  assumes "\<not> (0 \<le> getFullYear now \<and> getFullYear now \<le> 99)" and "getDay now = 3"
  shows "getDay (newDate (getFullYear now) (getMonth now) day 0 0 0)
      = nat ((3 + (day - getDate now)) mod 7)"
proof -
  have w: "(Day now + 4) mod 7 = 3"
    using assms(2) by (simp add: getDay_def WeekDay_def)
  have "Day ((Day now + (day - getDate now)) * msPerDay) = Day now + (day - getDate now)"
    by (simp add: Day_def msPerDay_def)
  then have "WeekDay (newDate (getFullYear now) (getMonth now) day 0 0 0)
      = (Day now + (day - getDate now) + 4) mod 7"
    by (simp add: newDate_day_of_month [OF assms(1)] WeekDay_def)
  also have "\<dots> = ((Day now + 4) + (day - getDate now)) mod 7"
    by (simp add: algebra_simps)
  also have "\<dots> = ((Day now + 4) mod 7 + (day - getDate now)) mod 7"
    by (simp add: mod_add_left_eq)
  finally show ?thesis by (simp add: w getDay_def)
qed

lemma wednesday_scenario:
  assumes sh: "startHour s = 10" and eh: "endHour s = 18"
    and tg: "\<not> dayToggles s 0" "dayToggles s 1" "dayToggles s 2" "dayToggles s 3"
            "\<not> dayToggles s 6"
    and yr: "\<not> (0 \<le> getFullYear now \<and> getFullYear now \<le> 99)"
    and wd: "getDay now = 3" and tm: "TimeWithinDay now = 14 * msPerHour"
    and dt: "3 \<le> getDate now" "getDate now \<le> 5"
  shows "getWorkingHoursSoFarToday s now = 4 \<and> getWorkingHoursSoFarThisMonth s now = 20"
proof -
  have now: "now = todayOf now + 14 * msPerHour"
    using tm mult_div_mod_eq [of msPerDay now]
    by (simp add: todayOf_eq [OF yr] TimeWithinDay_def Day_def mult.commute)
  have en: "\<And>day. isDayEnabled s (newDate (getFullYear now) (getMonth now) day 0 0 0)
      = dayToggles s (nat ((3 + (day - getDate now)) mod 7))"
    by (simp add: isDayEnabled_def getDay_day_of_month [OF yr wd])
  have "newDate (getFullYear now) (getMonth now) (getDate now) 0 0 0 = todayOf now"
    by (simp add: todayOf_def)
  with en [of "getDate now"] have today: "isDayEnabled s (todayOf now)"
    using tg by simp
  have S: "startOfWork s now = todayOf now + 10 * msPerHour"
    by (simp add: startOfWork_eq sh)
  have E: "endOfWork s now = todayOf now + 18 * msPerHour"
    by (simp add: endOfWork_eq eh)
  have c1: "\<not> now < startOfWork s now" and c2: "\<not> now > endOfWork s now"
    and c3: "now - startOfWork s now = 14400000"
    using now unfolding S E msPerHour_def by linarith+
  have t4: "getWorkingHoursSoFarToday s now = 4"
    using today c1 c2 by (simp add: getWorkingHoursSoFarToday_alt c3)
  have h: "getDailyWorkingHours s = 8" by (simp add: getDailyWorkingHours_def sh eh)
  consider "getDate now = 3" | "getDate now = 4" | "getDate now = 5" using dt by linarith
  then have "(\<Sum>d = 1..getDate now. spec_dayHours s now d) = 20"
  proof cases
    case 1
    have "{1..3::int} = {1, 2, 3}" by auto
    then show ?thesis
      using tg by (simp add: 1 spec_dayHours_def en h t4)
  next
    case 2
    have "{1..4::int} = {1, 2, 3, 4}" by auto
    then show ?thesis
      using tg by (simp add: 2 spec_dayHours_def en h t4)
  next
    case 3
    have "{1..5::int} = {1, 2, 3, 4, 5}" by auto
    then show ?thesis
      using tg by (simp add: 3 spec_dayHours_def en h t4)
  qed
  then show ?thesis by (simp add: t4 getWorkingHoursSoFarThisMonth_eq)
qed

subsection \<open>Rounding to a double is odd and monotone\<close>

lemma pow2_powi: "pow2 e = 2 powi e"
  by (simp add: pow2_def power_int_def inverse_eq_divide power_one_over)

lemma pow2_pos: "0 < pow2 e"
  by (simp add: pow2_powi)

lemma pow2_add: "pow2 (a + b) = pow2 a * pow2 b"
  by (simp add: pow2_powi power_int_add)

lemma pow2_mono: "a \<le> b \<Longrightarrow> pow2 a \<le> pow2 b"
  by (simp add: pow2_powi power_int_increasing)

lemma pow2_nat: "0 \<le> e \<Longrightarrow> pow2 e = of_int (2 ^ nat e)"
  by (simp add: pow2_def)

lemma bits_pos: "0 < n \<Longrightarrow> 1 \<le> bits n"
proof (induction n rule: bits.induct)
  case (1 n)
  have "0 \<le> bits (n div 2)"
  proof (cases "0 < n div 2")
    case True
    with "1.IH" "1.prems" show ?thesis by simp
  next
    case False
    then show ?thesis by (subst bits.simps) simp
  qed
  with "1.prems" show ?case by (subst bits.simps) simp
qed

lemma bits_bounds: "0 < n \<Longrightarrow> 2 ^ nat (bits n - 1) \<le> n \<and> n < 2 ^ nat (bits n)"
proof (induction n rule: bits.induct)
  case (1 n)
  define m where "m = n div 2"
  have n: "2 * m \<le> n" "n < 2 * m + 2" unfolding m_def by linarith+
  have b: "bits n = 1 + bits m" using "1.prems" unfolding m_def by (subst bits.simps) simp
  show ?case
  proof (cases "0 < m")
    case True
    then have ih: "2 ^ nat (bits m - 1) \<le> m" "m < 2 ^ nat (bits m)"
      using "1.IH" "1.prems" unfolding m_def by simp_all
    have bp: "1 \<le> bits m" using True by (rule bits_pos)
    then have "nat (bits m) = Suc (nat (bits m - 1))" by simp
    then have p1: "(2::int) ^ nat (bits m) = 2 * 2 ^ nat (bits m - 1)" by simp
    have "nat (1 + bits m) = Suc (nat (bits m))" using bp by simp
    then have p2: "(2::int) ^ nat (1 + bits m) = 2 * 2 ^ nat (bits m)" by simp
    have "2 ^ nat (bits n - 1) \<le> n" using ih(1) n(1) p1 by (simp add: b)
    moreover have "n < 2 ^ nat (bits n)" using ih(2) n(2) p2 by (simp add: b)
    ultimately show ?thesis by simp
  next
    case False
    with n "1.prems" have "m = 0" "n = 1" by linarith+
    then have "bits m = 0" by (subst bits.simps) simp
    with b \<open>n = 1\<close> show ?thesis by simp
  qed
qed

lemma bits_pow2:
  assumes "0 < n"
  shows "pow2 (bits n - 1) \<le> of_int n" and "of_int n < pow2 (bits n)"
proof -
  have b: "1 \<le> bits n" using assms by (rule bits_pos)
  have "(of_int (2 ^ nat (bits n - 1)) :: rat) \<le> of_int n"
    using bits_bounds [OF assms] by (simp only: of_int_le_iff)
  then show "pow2 (bits n - 1) \<le> of_int n" using b by (simp add: pow2_nat)
  have "(of_int n :: rat) < of_int (2 ^ nat (bits n))"
    using bits_bounds [OF assms] by (simp only: of_int_less_iff)
  then show "of_int n < pow2 (bits n)" using b by (simp add: pow2_nat)
qed

lemma exponentOf_bounds:
  assumes "0 < x"
  shows "pow2 (exponentOf x) \<le> x" and "x < pow2 (exponentOf x + 1)"
proof -
  obtain p q where pq: "quotient_of x = (p, q)" by (cases "quotient_of x")
  have q: "0 < q" using pq by (rule quotient_of_denom_pos)
  have x: "x = of_int p / of_int q" using pq by (rule quotient_of_div)
  have p: "0 < p" using assms q unfolding x by (simp add: zero_less_divide_iff)
  define e0 where "e0 = bits p - bits q"
  have qr: "(0::rat) < of_int q" using q by simp
  have up: "x < pow2 (e0 + 1)"
  proof -
    have "x * of_int q = of_int p" using qr unfolding x by simp
    also have "\<dots> < pow2 (bits p)" using p by (rule bits_pow2)
    also have "\<dots> = pow2 (e0 + 1) * pow2 (bits q - 1)"
      unfolding e0_def pow2_add [symmetric] by simp
    also have "\<dots> \<le> pow2 (e0 + 1) * of_int q"
      using bits_pow2(1) [OF q] pow2_pos [of "e0 + 1"] by (simp add: mult_left_mono)
    finally show ?thesis using qr by simp
  qed
  have lo: "pow2 (e0 - 1) \<le> x"
  proof -
    have "pow2 (e0 - 1) * of_int q \<le> pow2 (e0 - 1) * pow2 (bits q)"
      using bits_pow2(2) [OF q] pow2_pos [of "e0 - 1"] by (simp add: mult_left_mono)
    also have "\<dots> = pow2 (bits p - 1)"
      unfolding e0_def pow2_add [symmetric] by simp
    also have "\<dots> \<le> of_int p" using p by (rule bits_pow2)
    also have "\<dots> = x * of_int q" using qr unfolding x by simp
    finally show ?thesis using qr by simp
  qed
  have e: "exponentOf x = (if pow2 e0 \<le> x then e0 else e0 - 1)"
    by (simp add: exponentOf_def pq e0_def Let_def)
  show "pow2 (exponentOf x) \<le> x" using lo by (simp add: e)
  show "x < pow2 (exponentOf x + 1)" using up by (auto simp: e)
qed

lemma exponentOf_mono:
  assumes "0 < x" and "x \<le> y"
  shows "exponentOf x \<le> exponentOf y"
proof (rule ccontr)
  assume "\<not> exponentOf x \<le> exponentOf y"
  then have "exponentOf y + 1 \<le> exponentOf x" by simp
  then have "pow2 (exponentOf y + 1) \<le> pow2 (exponentOf x)" by (rule pow2_mono)
  also have "\<dots> \<le> x" using assms(1) by (rule exponentOf_bounds)
  also have "\<dots> \<le> y" by fact
  finally show False using exponentOf_bounds(2) [of y] assms by simp
qed

lemma roundHalfEven_floor: "\<lfloor>q\<rfloor> \<le> roundHalfEven q \<and> roundHalfEven q \<le> \<lfloor>q\<rfloor> + 1"
  by (simp add: roundHalfEven_def Let_def)

lemma roundHalfEven_mono:
  assumes "q1 \<le> q2"
  shows "roundHalfEven q1 \<le> roundHalfEven q2"
proof (cases "\<lfloor>q1\<rfloor> = \<lfloor>q2\<rfloor>")
  case True
  with assms show ?thesis by (auto simp: roundHalfEven_def Let_def)
next
  case False
  with assms have "\<lfloor>q1\<rfloor> + 1 \<le> \<lfloor>q2\<rfloor>" using floor_mono [OF assms] by linarith
  with roundHalfEven_floor [of q1] roundHalfEven_floor [of q2] show ?thesis by linarith
qed

lemma roundHalfEven_of_int: "roundHalfEven (of_int n) = n"
  by (simp add: roundHalfEven_def Let_def)

lemma round_double_pos_eq:
  "0 < x \<Longrightarrow> round_double x
     = of_int (roundHalfEven (x / pow2 (exponentOf x - 52))) * pow2 (exponentOf x - 52)"
  by (simp add: round_double_def Let_def)

lemma round_double_lower:
  assumes "0 < x"
  shows "pow2 (exponentOf x) \<le> round_double x"
proof -
  define u where "u = pow2 (exponentOf x - 52)"
  have u: "0 < u" unfolding u_def by (rule pow2_pos)
  have "pow2 (exponentOf x) = pow2 52 * u"
    unfolding u_def pow2_add [symmetric] by simp
  then have pe: "pow2 (exponentOf x) = of_int (2 ^ 52) * u" by (simp add: pow2_def)
  have "of_int (2 ^ 52) = pow2 (exponentOf x) / u" using u by (simp add: pe)
  also have "\<dots> \<le> x / u"
    using exponentOf_bounds(1) [OF assms] u by (simp add: divide_right_mono)
  finally have "roundHalfEven (of_int (2 ^ 52)) \<le> roundHalfEven (x / u)"
    by (rule roundHalfEven_mono)
  then have "(2 ^ 52 :: int) \<le> roundHalfEven (x / u)" by (simp only: roundHalfEven_of_int)
  then have "(of_int (2 ^ 52) :: rat) \<le> of_int (roundHalfEven (x / u))"
    by (simp only: of_int_le_iff)
  then have "of_int (2 ^ 52) * u \<le> of_int (roundHalfEven (x / u)) * u"
    using u by (simp only: mult_le_cancel_right_pos)
  then show ?thesis
    unfolding round_double_pos_eq [OF assms] u_def [symmetric] pe .
qed

lemma round_double_upper:
  assumes "0 < x"
  shows "round_double x \<le> pow2 (exponentOf x + 1)"
proof -
  define u where "u = pow2 (exponentOf x - 52)"
  have u: "0 < u" unfolding u_def by (rule pow2_pos)
  have "53 + (exponentOf x - 52) = exponentOf x + 1" by simp
  then have "pow2 (exponentOf x + 1) = pow2 53 * u"
    unfolding u_def pow2_add [symmetric] by (simp only:)
  then have pe: "pow2 (exponentOf x + 1) = of_int (2 ^ 53) * u" by (simp add: pow2_def)
  have "x / u \<le> pow2 (exponentOf x + 1) / u"
    using exponentOf_bounds(2) [OF assms] u by (simp add: divide_right_mono)
  also have "\<dots> = of_int (2 ^ 53)" using u by (simp add: pe)
  finally have "roundHalfEven (x / u) \<le> roundHalfEven (of_int (2 ^ 53))"
    by (rule roundHalfEven_mono)
  then have "roundHalfEven (x / u) \<le> (2 ^ 53 :: int)" by (simp only: roundHalfEven_of_int)
  then have "(of_int (roundHalfEven (x / u)) :: rat) \<le> of_int (2 ^ 53)"
    by (simp only: of_int_le_iff)
  then have "of_int (roundHalfEven (x / u)) * u \<le> of_int (2 ^ 53) * u"
    using u by (simp only: mult_le_cancel_right_pos)
  then show ?thesis
    unfolding round_double_pos_eq [OF assms] u_def [symmetric] pe .
qed

lemma round_double_mono_pos:
  assumes "0 < x" and "x \<le> y"
  shows "round_double x \<le> round_double y"
proof (cases "exponentOf x = exponentOf y")
  case True
  define u where "u = pow2 (exponentOf x - 52)"
  have u: "0 < u" unfolding u_def by (rule pow2_pos)
  have y: "0 < y" using assms by simp
  have "x / u \<le> y / u" using assms(2) u by (simp add: divide_right_mono)
  then have "roundHalfEven (x / u) \<le> roundHalfEven (y / u)" by (rule roundHalfEven_mono)
  then have "(of_int (roundHalfEven (x / u)) :: rat) \<le> of_int (roundHalfEven (y / u))"
    by (simp only: of_int_le_iff)
  then have "of_int (roundHalfEven (x / u)) * u \<le> of_int (roundHalfEven (y / u)) * u"
    using u by (simp only: mult_le_cancel_right_pos)
  then show ?thesis
    unfolding round_double_pos_eq [OF assms(1)] round_double_pos_eq [OF y]
      True [symmetric] u_def [symmetric] .
next
  case False
  have y: "0 < y" using assms by simp
  from False exponentOf_mono [OF assms] have "exponentOf x + 1 \<le> exponentOf y" by simp
  then have "pow2 (exponentOf x + 1) \<le> pow2 (exponentOf y)" by (rule pow2_mono)
  with round_double_upper [OF assms(1)] round_double_lower [OF y] show ?thesis by linarith
qed

lemma round_double_nonneg: "0 \<le> x \<Longrightarrow> 0 \<le> round_double x"
proof (cases "x = 0")
  case True
  then show ?thesis by (simp add: round_double_def)
next
  case False
  assume "0 \<le> x"
  with False have "0 < x" by simp
  from round_double_lower [OF this] pow2_pos [of "exponentOf x"] show ?thesis by linarith
qed

lemma round_double_odd: "round_double (- x) = - round_double x"
  by (simp add: round_double_def Let_def)

lemma round_double_mono:
  assumes "x \<le> y"
  shows "round_double x \<le> round_double y"
proof -
  consider (pos) "0 < x" | (mid) "x \<le> 0" "0 \<le> y" | (neg) "y < 0" using assms by linarith
  then show ?thesis
  proof cases
    case pos
    then show ?thesis using assms by (rule round_double_mono_pos)
  next
    case mid
    have "0 \<le> round_double (- x)" using mid(1) by (intro round_double_nonneg) simp
    then have "round_double x \<le> 0" by (simp add: round_double_odd)
    moreover have "0 \<le> round_double y" using mid(2) by (rule round_double_nonneg)
    ultimately show ?thesis by linarith
  next
    case neg
    have "round_double (- y) \<le> round_double (- x)"
      using neg assms by (intro round_double_mono_pos) simp_all
    then show ?thesis by (simp add: round_double_odd)
  qed
qed

subsection \<open>The functions with zone and rounding, in \<open>utcZone\<close> and without rounding\<close>

lemma LocalTime_utcZone: "LocalTime utcZone t = t"
  by (simp add: LocalTime_def utcZone_def)

lemma UTC_utcZone: "UTC utcZone t = t"
  by (simp add: UTC_def utcZone_def)

lemma newDateIn_utcZone: "newDateIn utcZone y m dt h mi sec = newDate y m dt h mi sec"
  by (simp add: newDateIn_def newDate_def UTC_utcZone)

lemma getters_utcZone:
  "getFullYearIn utcZone t = getFullYear t" "getMonthIn utcZone t = getMonth t"
  "getDateIn utcZone t = getDate t" "getDayIn utcZone t = getDay t"
  by (simp_all add: getFullYearIn_def getMonthIn_def getDateIn_def getDayIn_def
      getFullYear_def getMonth_def getDate_def getDay_def LocalTime_utcZone)

lemma isDayEnabledIn_utcZone: "isDayEnabledIn utcZone s d = isDayEnabled s d"
  by (simp add: isDayEnabledIn_def isDayEnabled_def getters_utcZone)

lemma todayIn_utcZone: "todayIn utcZone now = todayOf now"
  by (simp add: todayIn_def todayOf_def getters_utcZone newDateIn_utcZone)

lemma js_div_r_exact: "js_div_r exact a b = js_div a b"
  by (simp add: js_div_r_def js_div_def exact_def)

lemma js_mul_r_exact: "js_mul_r exact x y = js_mul x y"
  by (cases x; cases y) (simp_all add: exact_def)

lemma getWorkingHoursSoFarTodayIn_utcZone:
  "getWorkingHoursSoFarTodayIn utcZone exact s now = getWorkingHoursSoFarToday s now"
  by (simp add: getWorkingHoursSoFarTodayIn_def getWorkingHoursSoFarToday_def
      isDayEnabledIn_utcZone todayIn_utcZone getters_utcZone newDateIn_utcZone exact_def Let_def)

lemma soFarBodyIn_utcZone:
  "soFarBodyIn utcZone exact s now day t = soFarBody s now day t"
  by (simp add: soFarBodyIn_def soFarBody_def isDayEnabledIn_utcZone getters_utcZone
      newDateIn_utcZone exact_def Let_def)

lemma soFarLoopIn_utcZone:
  "soFarLoopIn utcZone exact s now day t = soFarLoop s now day t"
proof (induction s now day t rule: soFarLoop.induct)
  case (1 s now day t)
  show ?case
  proof (cases "day \<le> getDate now")
    case True
    then show ?thesis
      using "1.IH"
      by (subst soFarLoopIn.simps, subst soFarLoop.simps)
         (simp add: getters_utcZone soFarBodyIn_utcZone)
  next
    case False
    then show ?thesis
      by (subst soFarLoopIn.simps, subst soFarLoop.simps) (simp add: getters_utcZone)
  qed
qed

lemma totalLoopIn_utcZone:
  "totalLoopIn utcZone s year month dm day w = totalLoop s year month dm day w"
proof (induction s year month dm day w rule: totalLoop.induct)
  case (1 s year month dm day w)
  show ?case
  proof (cases "day \<le> dm")
    case True
    then show ?thesis
      using "1.IH"
      by (subst totalLoopIn.simps, subst totalLoop.simps)
         (simp add: isDayEnabledIn_utcZone newDateIn_utcZone Let_def)
  next
    case False
    then show ?thesis
      by (subst totalLoopIn.simps, subst totalLoop.simps) simp
  qed
qed

lemma getTotalWorkingHoursThisMonthIn_utcZone:
  "getTotalWorkingHoursThisMonthIn utcZone s now = getTotalWorkingHoursThisMonth s now"
  by (simp add: getTotalWorkingHoursThisMonthIn_def getTotalWorkingHoursThisMonth_def
      daysInMonthIn_def daysInMonthOf_def getters_utcZone newDateIn_utcZone totalLoopIn_utcZone
      Let_def)

lemma calculateEarningsIn_utcZone:
  "calculateEarningsIn utcZone exact s now a = calculateEarnings s now a"
  by (simp add: calculateEarningsIn_def calculateEarnings_def
      getTotalWorkingHoursThisMonthIn_utcZone getWorkingHoursSoFarThisMonthIn_def
      getWorkingHoursSoFarThisMonth_def soFarLoopIn_utcZone js_div_r_exact js_mul_r_exact
      exact_def Let_def)

lemma calculateDailyEarningsIn_utcZone:
  "calculateDailyEarningsIn utcZone exact s now a = calculateDailyEarnings s now a"
  by (simp add: calculateDailyEarningsIn_def calculateDailyEarnings_def
      isDayEnabledIn_utcZone todayIn_utcZone getWorkingHoursSoFarTodayIn_utcZone
      js_div_r_exact js_mul_r_exact Let_def)

subsection \<open>Hours so far today in a time zone\<close>

lemma getWorkingHoursSoFarTodayIn_alt:
  "getWorkingHoursSoFarTodayIn z r s now =
     (if \<not> isDayEnabledIn z s (todayIn z now) then 0
      else if now < startOfWorkIn z s now then 0
      else if now > endOfWorkIn z s now then of_int (endHour s - startHour s)
      else r (r (of_int (now - startOfWorkIn z s now) / 1000) / 3600))"
  by (simp add: getWorkingHoursSoFarTodayIn_def startOfWorkIn_def endOfWorkIn_def Let_def)

lemma hours_at_end:
  fixes r :: "rat \<Rightarrow> rat"
  assumes "e - b = h * msPerHour"
    and "r (of_int (h * 3600)) = of_int (h * 3600)" and "r (of_int h) = of_int h"
  shows "r (r (of_int (e - b) / 1000) / 3600) = of_int h"
proof -
  have e1: "(of_int (e - b) :: rat) / 1000 = of_int (h * 3600)"
    by (simp add: assms(1) msPerHour_def)
  have e2: "(of_int (h * 3600) :: rat) / 3600 = of_int h" by simp
  show ?thesis by (simp only: e1 assms(2) e2 assms(3))
qed

lemma todayIn_same_day:
  "Day (LocalTime z now1) = Day (LocalTime z now2) \<Longrightarrow> todayIn z now1 = todayIn z now2"
  by (simp add: todayIn_def getFullYearIn_def getMonthIn_def getDateIn_def YearFromTime_def
      MonthFromTime_def DateFromTime_def DayWithinYear_def InLeapYear_def)

lemma hours_mono_general:
  fixes W E n1 n2 :: int and H :: rat and g :: "int \<Rightarrow> rat"
  assumes gm: "\<And>a b. a \<le> b \<Longrightarrow> g a \<le> g b" and g0: "g 0 = 0" and gE: "g (E - W) = H"
    and WE: "W \<le> E" and n: "n1 \<le> n2"
  shows "(if n1 < W then 0 else if n1 > E then H else g (n1 - W))
       \<le> (if n2 < W then 0 else if n2 > E then H else g (n2 - W))"
proof -
  have pos: "\<And>a. 0 \<le> a \<Longrightarrow> 0 \<le> g a" using gm [of 0] g0 by force
  have H0: "0 \<le> H" using pos [of "E - W"] WE gE by simp
  consider (before) "n1 < W" | (after) "W \<le> n1" "E < n1" | (within) "W \<le> n1" "n1 \<le> E"
    by linarith
  then show ?thesis
  proof cases
    case before
    have "0 \<le> (if n2 < W then 0 else if n2 > E then H else g (n2 - W))"
      using H0 pos [of "n2 - W"] by simp
    with before show ?thesis by simp
  next
    case after
    with n have "W \<le> n2" "E < n2" by simp_all
    with after show ?thesis by simp
  next
    case within
    show ?thesis
    proof (cases "E < n2")
      case True
      have "g (n1 - W) \<le> g (E - W)" using within by (intro gm) simp
      with within True WE gE show ?thesis by simp
    next
      case False
      have "g (n1 - W) \<le> g (n2 - W)" using n by (intro gm) simp
      with within False n show ?thesis by simp
    qed
  qed
qed

subsection \<open>Earnings with rounding\<close>

lemma clamp_r_Num:
  "b \<noteq> 0 \<Longrightarrow>
     Math_max (Num 0) (Math_min (Num 1) (js_div_r r a b)) = Num (max 0 (min 1 (r (a / b))))"
  by (simp add: js_div_r_def)

lemma spec_monthlyFractionIn_Num:
  "spec_monthlyFractionIn z r s now =
     Num (if getTotalWorkingHoursThisMonthIn z s now = 0 then 0
          else max 0 (min 1 (r (getWorkingHoursSoFarThisMonthIn z r s now
                               / of_int (getTotalWorkingHoursThisMonthIn z s now)))))"
  by (simp add: spec_monthlyFractionIn_def clamp_r_Num)

lemma spec_dailyFractionIn_Num:
  "spec_dailyFractionIn z r s now =
     Num (if getDailyWorkingHours s = 0 \<or> \<not> isDayEnabledIn z s (todayIn z now) then 0
          else max 0 (min 1 (r (getWorkingHoursSoFarTodayIn z r s now
                               / of_int (getDailyWorkingHours s)))))"
  by (simp add: spec_dailyFractionIn_def clamp_r_Num)

lemma dailyRateIn_Num:
  "dailyRateIn r s a = Num (if getTotalWorkingDaysPerYear s > 0
                        then r (a / of_int (getTotalWorkingDaysPerYear s)) else 0)"
  by (simp add: dailyRateIn_def js_div_r_def)

lemma calculateEarningsIn_eq:
  "r 0 = 0 \<Longrightarrow>
   calculateEarningsIn z r s now a
     = js_mul_r r (Num (r (a / 12))) (spec_monthlyFractionIn z r s now)"
  by (simp add: calculateEarningsIn_def spec_monthlyFractionIn_def Let_def)

lemma calculateDailyEarningsIn_eq:
  "r 0 = 0 \<Longrightarrow>
   calculateDailyEarningsIn z r s now a
     = js_mul_r r (dailyRateIn r s a) (spec_dailyFractionIn z r s now)"
  by (simp add: calculateDailyEarningsIn_def spec_dailyFractionIn_def dailyRateIn_def Let_def
      js_div_r_def)

section \<open>The claims\<close>

text \<open>
  Claim C1. For every schedule and clock reading, the monthly fraction and the daily
  fraction that scale the earnings are numbers between 0 and 1, each is 0 where its
  denominator is 0, and the earnings are then 0 (a finite number: nothing is divided by
  zero). The monthly earnings are a twelfth of the salary times the monthly fraction, the
  daily earnings the daily rate times the daily fraction.
\<close>

theorem fractions_in_unit_interval:
  "(\<exists>f. spec_monthlyFraction s now = Num f \<and> 0 \<le> f \<and> f \<le> 1
        \<and> (getTotalWorkingHoursThisMonth s now = 0 \<longrightarrow> f = 0)
        \<and> calculateEarnings s now a = Num (a / 12 * f))
   \<and> (\<exists>f. spec_dailyFraction s now = Num f \<and> 0 \<le> f \<and> f \<le> 1
        \<and> (getDailyWorkingHours s = 0 \<longrightarrow> f = 0)
        \<and> calculateDailyEarnings s now a = js_mul (dailyRate s a) (Num f))
   \<and> (getTotalWorkingHoursThisMonth s now = 0 \<longrightarrow> calculateEarnings s now a = Num 0)
   \<and> (getDailyWorkingHours s = 0 \<longrightarrow> calculateDailyEarnings s now a = Num 0)"
proof (intro conjI)
  show "\<exists>f. spec_monthlyFraction s now = Num f \<and> 0 \<le> f \<and> f \<le> 1
        \<and> (getTotalWorkingHoursThisMonth s now = 0 \<longrightarrow> f = 0)
        \<and> calculateEarnings s now a = Num (a / 12 * f)"
    by (simp add: calculateEarnings_eq spec_monthlyFraction_Num)
  show "\<exists>f. spec_dailyFraction s now = Num f \<and> 0 \<le> f \<and> f \<le> 1
        \<and> (getDailyWorkingHours s = 0 \<longrightarrow> f = 0)
        \<and> calculateDailyEarnings s now a = js_mul (dailyRate s a) (Num f)"
    by (simp add: calculateDailyEarnings_eq spec_dailyFraction_Num)
  show "getTotalWorkingHoursThisMonth s now = 0 \<longrightarrow> calculateEarnings s now a = Num 0"
    by (simp add: calculateEarnings_def Let_def)
  show "getDailyWorkingHours s = 0 \<longrightarrow> calculateDailyEarnings s now a = Num 0"
    by (simp add: calculateDailyEarnings_def Let_def)
qed

theorem fractions_in_unit_interval_witness:
  "getTotalWorkingHoursThisMonth emptyWindowSchedule wed_14_00 = 0
   \<and> getDailyWorkingHours emptyWindowSchedule = 0
   \<and> calculateEarnings emptyWindowSchedule wed_14_00 30000 = Num 0
   \<and> calculateDailyEarnings emptyWindowSchedule wed_14_00 30000 = Num 0"
proof -
  have h1: "getTotalWorkingHoursThisMonth emptyWindowSchedule wed_14_00 = 0" by code_simp
  have h2: "getDailyWorkingHours emptyWindowSchedule = 0" by code_simp
  show ?thesis
    using fractions_in_unit_interval [of emptyWindowSchedule wed_14_00 30000] h1 h2 by blast
qed

text \<open>
  Claim C2. The earnings of today are the annual salary divided by the working days per
  year, times the daily fraction; the working days per year are 52 times the number of
  weekdays switched on; the earnings of today are 0 where that number is 0 or today is
  not a working day. (Where the number of working days is 0 the source does not divide.)
\<close>

theorem calculateDailyEarnings_spec:
  "getTotalWorkingDaysPerYear s = int (card {d. d < 7 \<and> dayToggles s d}) * 52
   \<and> (getTotalWorkingDaysPerYear s = 0 \<or> \<not> isDayEnabled s (todayOf now)
        \<longrightarrow> calculateDailyEarnings s now a = Num 0)
   \<and> (getTotalWorkingDaysPerYear s \<noteq> 0
        \<longrightarrow> calculateDailyEarnings s now a
              = js_mul (js_div a (of_int (getTotalWorkingDaysPerYear s)))
                       (spec_dailyFraction s now))"
proof (intro conjI impI)
  show "getTotalWorkingDaysPerYear s = int (card {d. d < 7 \<and> dayToggles s d}) * 52"
    by (rule getTotalWorkingDaysPerYear_card)
next
  assume "getTotalWorkingDaysPerYear s = 0 \<or> \<not> isDayEnabled s (todayOf now)"
  then have "\<not> isDayEnabled s (todayOf now)"
    using enabled_imp_days_pos [of s "todayOf now"] by auto
  then show "calculateDailyEarnings s now a = Num 0"
    by (simp add: calculateDailyEarnings_def Let_def)
next
  assume "getTotalWorkingDaysPerYear s \<noteq> 0"
  moreover have "0 \<le> getTotalWorkingDaysPerYear s"
    unfolding getTotalWorkingDaysPerYear_card by simp
  ultimately have "0 < getTotalWorkingDaysPerYear s" by linarith
  then have "dailyRate s a = js_div a (of_int (getTotalWorkingDaysPerYear s))"
    by (simp add: dailyRate_def)
  then show "calculateDailyEarnings s now a
      = js_mul (js_div a (of_int (getTotalWorkingDaysPerYear s))) (spec_dailyFraction s now)"
    by (simp add: calculateDailyEarnings_eq)
qed

theorem calculateDailyEarnings_spec_witness:
  "getTotalWorkingDaysPerYear allOffSchedule = 0
   \<and> calculateDailyEarnings allOffSchedule wed_14_00 30000 = Num 0
   \<and> \<not> isDayEnabled defaultSchedule (todayOf sun_14_00)
   \<and> calculateDailyEarnings defaultSchedule sun_14_00 30000 = Num 0
   \<and> getTotalWorkingDaysPerYear defaultSchedule = 260
   \<and> spec_dailyFraction defaultSchedule wed_14_00 = Num (1 / 2)
   \<and> calculateDailyEarnings defaultSchedule wed_14_00 30000 = Num (750 / 13)"
proof -
  have h1: "getTotalWorkingDaysPerYear allOffSchedule = 0" by code_simp
  have h2: "\<not> isDayEnabled defaultSchedule (todayOf sun_14_00)" by code_simp
  have h3: "getTotalWorkingDaysPerYear defaultSchedule = 260" by code_simp
  have h4: "spec_dailyFraction defaultSchedule wed_14_00 = Num (1 / 2)" by code_simp
  have "calculateDailyEarnings allOffSchedule wed_14_00 30000 = Num 0"
    using calculateDailyEarnings_spec [of allOffSchedule wed_14_00 30000] h1 by blast
  moreover have "calculateDailyEarnings defaultSchedule sun_14_00 30000 = Num 0"
    using calculateDailyEarnings_spec [of defaultSchedule sun_14_00 30000] h2 by blast
  moreover have "calculateDailyEarnings defaultSchedule wed_14_00 30000 = Num (750 / 13)"
    using calculateDailyEarnings_spec [of defaultSchedule wed_14_00 30000] h3 h4
    by (simp add: js_div_def)
  ultimately show ?thesis using h1 h2 h3 h4 by simp
qed

text \<open>
  Claim C3. The hours worked so far this month are the sum, over the days from 1 to
  today's day of the month, of 0 for a day that is not a working day, the full daily
  hours for a working day before today, and the hours so far today for today. In
  particular, with Monday to Friday on, start 10 and end 18, on a Wednesday at 14:00 that
  is the 3rd, 4th or 5th of its month (the working days before it are then a Monday and a
  Tuesday), the hours so far today are 4 and the hours so far this month are 20. The
  scenario is stated for clock readings outside the years 0 to 99, which the \<open>Date\<close>
  constructor reads as 1900 to 1999.
\<close>

theorem getWorkingHoursSoFarThisMonth_sum:
  "getWorkingHoursSoFarThisMonth s now = (\<Sum>day = 1..getDate now. spec_dayHours s now day)
   \<and> (startHour s = 10 \<and> endHour s = 18
        \<and> \<not> dayToggles s 0 \<and> dayToggles s 1 \<and> dayToggles s 2 \<and> dayToggles s 3
        \<and> dayToggles s 4 \<and> dayToggles s 5 \<and> \<not> dayToggles s 6
        \<and> \<not> (0 \<le> getFullYear now \<and> getFullYear now \<le> 99)
        \<and> getDay now = 3 \<and> TimeWithinDay now = 14 * msPerHour
        \<and> 3 \<le> getDate now \<and> getDate now \<le> 5
      \<longrightarrow> getWorkingHoursSoFarToday s now = 4 \<and> getWorkingHoursSoFarThisMonth s now = 20)"
proof (intro conjI impI)
  show "getWorkingHoursSoFarThisMonth s now = (\<Sum>day = 1..getDate now. spec_dayHours s now day)"
    by (rule getWorkingHoursSoFarThisMonth_eq)
next
  assume a: "startHour s = 10 \<and> endHour s = 18
        \<and> \<not> dayToggles s 0 \<and> dayToggles s 1 \<and> dayToggles s 2 \<and> dayToggles s 3
        \<and> dayToggles s 4 \<and> dayToggles s 5 \<and> \<not> dayToggles s 6
        \<and> \<not> (0 \<le> getFullYear now \<and> getFullYear now \<le> 99)
        \<and> getDay now = 3 \<and> TimeWithinDay now = 14 * msPerHour
        \<and> 3 \<le> getDate now \<and> getDate now \<le> 5"
  have r: "getWorkingHoursSoFarToday s now = 4 \<and> getWorkingHoursSoFarThisMonth s now = 20"
    by (rule wednesday_scenario) (use a in blast)+
  from r show "getWorkingHoursSoFarToday s now = 4" ..
  from r show "getWorkingHoursSoFarThisMonth s now = 20" ..
qed

theorem getWorkingHoursSoFarThisMonth_sum_witness:
  "getDay wed_14_00 = 3 \<and> TimeWithinDay wed_14_00 = 14 * msPerHour \<and> getDate wed_14_00 = 3
   \<and> getWorkingHoursSoFarToday defaultSchedule wed_14_00 = 4
   \<and> getWorkingHoursSoFarThisMonth defaultSchedule wed_14_00 = 20
   \<and> getDay wed_jun_14_00 = 3 \<and> TimeWithinDay wed_jun_14_00 = 14 * msPerHour
   \<and> getDate wed_jun_14_00 = 5
   \<and> getWorkingHoursSoFarToday defaultSchedule wed_jun_14_00 = 4
   \<and> getWorkingHoursSoFarThisMonth defaultSchedule wed_jun_14_00 = 20"
proof -
  have s: "startHour defaultSchedule = 10 \<and> endHour defaultSchedule = 18
      \<and> \<not> dayToggles defaultSchedule 0 \<and> dayToggles defaultSchedule 1
      \<and> dayToggles defaultSchedule 2 \<and> dayToggles defaultSchedule 3
      \<and> dayToggles defaultSchedule 4 \<and> dayToggles defaultSchedule 5
      \<and> \<not> dayToggles defaultSchedule 6"
    by (simp add: defaultSchedule_def)
  have n1: "\<not> (0 \<le> getFullYear wed_14_00 \<and> getFullYear wed_14_00 \<le> 99)
      \<and> getDay wed_14_00 = 3 \<and> TimeWithinDay wed_14_00 = 14 * msPerHour
      \<and> 3 \<le> getDate wed_14_00 \<and> getDate wed_14_00 \<le> 5" by code_simp
  have d1: "getDate wed_14_00 = 3" by code_simp
  have n2: "\<not> (0 \<le> getFullYear wed_jun_14_00 \<and> getFullYear wed_jun_14_00 \<le> 99)
      \<and> getDay wed_jun_14_00 = 3 \<and> TimeWithinDay wed_jun_14_00 = 14 * msPerHour
      \<and> 3 \<le> getDate wed_jun_14_00 \<and> getDate wed_jun_14_00 \<le> 5" by code_simp
  have d2: "getDate wed_jun_14_00 = 5" by code_simp
  have "getWorkingHoursSoFarToday defaultSchedule wed_14_00 = 4
      \<and> getWorkingHoursSoFarThisMonth defaultSchedule wed_14_00 = 20"
    using getWorkingHoursSoFarThisMonth_sum [of defaultSchedule wed_14_00] s n1 by blast
  moreover have "getWorkingHoursSoFarToday defaultSchedule wed_jun_14_00 = 4
      \<and> getWorkingHoursSoFarThisMonth defaultSchedule wed_jun_14_00 = 20"
    using getWorkingHoursSoFarThisMonth_sum [of defaultSchedule wed_jun_14_00] s n2 by blast
  ultimately show ?thesis using n1 n2 d1 d2 by blast
qed

text \<open>
  Claim C4, as stated, fails at the end boundary itself on a day with a daylight-saving
  change inside the work window. In London on Sunday 27 October 2024, with start 0 and
  end 18, the two boundaries are 19 hours apart: at 18:00, the end boundary, the hours so
  far are the 19 hours on the clock since the start, not the 18 daily working hours.
\<close>

theorem getWorkingHoursSoFarTodayIn_cases_counterexample:
  "isDayEnabledIn londonZone everyDaySchedule (todayIn londonZone dstEnd_18_00)
   \<and> startOfWorkIn londonZone everyDaySchedule dstEnd_18_00 \<le> dstEnd_18_00
   \<and> endOfWorkIn londonZone everyDaySchedule dstEnd_18_00 = dstEnd_18_00
   \<and> endHour everyDaySchedule - startHour everyDaySchedule = 18
   \<and> getWorkingHoursSoFarTodayIn londonZone round_double everyDaySchedule dstEnd_18_00 = 19
   \<and> getWorkingHoursSoFarTodayIn londonZone round_double everyDaySchedule dstEnd_18_00
       \<noteq> of_int (endHour everyDaySchedule - startHour everyDaySchedule)"
proof (intro conjI)
  show "isDayEnabledIn londonZone everyDaySchedule (todayIn londonZone dstEnd_18_00)"
    by code_simp
  show "startOfWorkIn londonZone everyDaySchedule dstEnd_18_00 \<le> dstEnd_18_00"
    by code_simp
  show "endOfWorkIn londonZone everyDaySchedule dstEnd_18_00 = dstEnd_18_00"
    by code_simp
  show "endHour everyDaySchedule - startHour everyDaySchedule = 18"
    by code_simp
  show "getWorkingHoursSoFarTodayIn londonZone round_double everyDaySchedule dstEnd_18_00 = 19"
    by code_simp
  show "getWorkingHoursSoFarTodayIn londonZone round_double everyDaySchedule dstEnd_18_00
       \<noteq> of_int (endHour everyDaySchedule - startHour everyDaySchedule)"
    by code_simp
qed

text \<open>
  Claim C4, amended. In every time zone and with every rounding, the hours worked so far
  today are, as a chain of cases in the order of the claim: 0 if today is not a working
  day or the clock is before the start of work; otherwise the full daily hours if the
  clock is strictly after the end of work; otherwise, the end boundary itself included,
  the time since the start of work in hours, as the source computes it (milliseconds
  / 1000 / 3600). At the end boundary itself that is the full daily hours where the two
  boundaries are exactly that many hours apart (and those integers are not rounded).
\<close>

theorem getWorkingHoursSoFarTodayIn_cases:
  "(\<not> isDayEnabledIn z s (todayIn z now) \<or> now < startOfWorkIn z s now
      \<longrightarrow> getWorkingHoursSoFarTodayIn z r s now = 0)
   \<and> (isDayEnabledIn z s (todayIn z now) \<and> startOfWorkIn z s now \<le> now
        \<and> endOfWorkIn z s now < now
      \<longrightarrow> getWorkingHoursSoFarTodayIn z r s now = of_int (endHour s - startHour s))
   \<and> (isDayEnabledIn z s (todayIn z now) \<and> startOfWorkIn z s now \<le> now
        \<and> now \<le> endOfWorkIn z s now
      \<longrightarrow> getWorkingHoursSoFarTodayIn z r s now
            = r (r (of_int (now - startOfWorkIn z s now) / 1000) / 3600))
   \<and> (isDayEnabledIn z s (todayIn z now) \<and> startOfWorkIn z s now \<le> now
        \<and> endOfWorkIn z s now = now
        \<and> endOfWorkIn z s now - startOfWorkIn z s now = (endHour s - startHour s) * msPerHour
        \<and> r (of_int ((endHour s - startHour s) * 3600)) = of_int ((endHour s - startHour s) * 3600)
        \<and> r (of_int (endHour s - startHour s)) = of_int (endHour s - startHour s)
      \<longrightarrow> getWorkingHoursSoFarTodayIn z r s now = of_int (endHour s - startHour s))"
proof (intro conjI impI; (elim conjE)?)
  assume "\<not> isDayEnabledIn z s (todayIn z now) \<or> now < startOfWorkIn z s now"
  then show "getWorkingHoursSoFarTodayIn z r s now = 0"
    by (auto simp: getWorkingHoursSoFarTodayIn_alt)
next
  assume "isDayEnabledIn z s (todayIn z now)" "startOfWorkIn z s now \<le> now"
    "endOfWorkIn z s now < now"
  then show "getWorkingHoursSoFarTodayIn z r s now = of_int (endHour s - startHour s)"
    by (simp add: getWorkingHoursSoFarTodayIn_alt)
next
  assume "isDayEnabledIn z s (todayIn z now)" "startOfWorkIn z s now \<le> now"
    "now \<le> endOfWorkIn z s now"
  then show "getWorkingHoursSoFarTodayIn z r s now
            = r (r (of_int (now - startOfWorkIn z s now) / 1000) / 3600)"
    by (simp add: getWorkingHoursSoFarTodayIn_alt)
next
  assume w: "isDayEnabledIn z s (todayIn z now)" and b: "startOfWorkIn z s now \<le> now"
    and e: "endOfWorkIn z s now = now"
    and d: "endOfWorkIn z s now - startOfWorkIn z s now = (endHour s - startHour s) * msPerHour"
    and r1: "r (of_int ((endHour s - startHour s) * 3600)) = of_int ((endHour s - startHour s) * 3600)"
    and r2: "r (of_int (endHour s - startHour s)) = of_int (endHour s - startHour s)"
  have "r (r (of_int (endOfWorkIn z s now - startOfWorkIn z s now) / 1000) / 3600)
      = of_int (endHour s - startHour s)"
    using d r1 r2 by (rule hours_at_end)
  moreover have "getWorkingHoursSoFarTodayIn z r s now
      = r (r (of_int (now - startOfWorkIn z s now) / 1000) / 3600)"
    using w b e by (simp add: getWorkingHoursSoFarTodayIn_alt)
  ultimately show "getWorkingHoursSoFarTodayIn z r s now = of_int (endHour s - startHour s)"
    by (simp only: e)
qed

theorem getWorkingHoursSoFarTodayIn_cases_witness:
  "jan3_09_00 < startOfWorkIn londonZone defaultSchedule jan3_09_00
   \<and> getWorkingHoursSoFarTodayIn londonZone round_double defaultSchedule jan3_09_00 = 0
   \<and> \<not> isDayEnabledIn londonZone defaultSchedule (todayIn londonZone jan7_14_00)
   \<and> getWorkingHoursSoFarTodayIn londonZone round_double defaultSchedule jan7_14_00 = 0
   \<and> endOfWorkIn londonZone defaultSchedule jan3_19_00 < jan3_19_00
   \<and> getWorkingHoursSoFarTodayIn londonZone round_double defaultSchedule jan3_19_00 = 8
   \<and> startOfWorkIn londonZone defaultSchedule jan3_14_00 \<le> jan3_14_00
   \<and> jan3_14_00 \<le> endOfWorkIn londonZone defaultSchedule jan3_14_00
   \<and> getWorkingHoursSoFarTodayIn londonZone round_double defaultSchedule jan3_14_00 = 4
   \<and> endOfWorkIn londonZone defaultSchedule jan3_18_00 = jan3_18_00
   \<and> getWorkingHoursSoFarTodayIn londonZone round_double defaultSchedule jan3_18_00 = 8"
proof -
  note inst = getWorkingHoursSoFarTodayIn_cases [where z = londonZone and s = defaultSchedule
      and r = round_double]
  have h1: "jan3_09_00 < startOfWorkIn londonZone defaultSchedule jan3_09_00" by code_simp
  have h2: "\<not> isDayEnabledIn londonZone defaultSchedule (todayIn londonZone jan7_14_00)"
    by code_simp
  have h3: "isDayEnabledIn londonZone defaultSchedule (todayIn londonZone jan3_19_00)"
    "startOfWorkIn londonZone defaultSchedule jan3_19_00 \<le> jan3_19_00"
    "endOfWorkIn londonZone defaultSchedule jan3_19_00 < jan3_19_00" by code_simp+
  have h4: "isDayEnabledIn londonZone defaultSchedule (todayIn londonZone jan3_14_00)"
    "startOfWorkIn londonZone defaultSchedule jan3_14_00 \<le> jan3_14_00"
    "jan3_14_00 \<le> endOfWorkIn londonZone defaultSchedule jan3_14_00" by code_simp+
  have v4: "round_double (round_double
      (of_int (jan3_14_00 - startOfWorkIn londonZone defaultSchedule jan3_14_00) / 1000) / 3600) = 4"
    by code_simp
  have h5: "isDayEnabledIn londonZone defaultSchedule (todayIn londonZone jan3_18_00)"
    "startOfWorkIn londonZone defaultSchedule jan3_18_00 \<le> jan3_18_00"
    "endOfWorkIn londonZone defaultSchedule jan3_18_00 = jan3_18_00"
    "endOfWorkIn londonZone defaultSchedule jan3_18_00
       - startOfWorkIn londonZone defaultSchedule jan3_18_00
     = (endHour defaultSchedule - startHour defaultSchedule) * msPerHour"
    "round_double (of_int ((endHour defaultSchedule - startHour defaultSchedule) * 3600))
     = of_int ((endHour defaultSchedule - startHour defaultSchedule) * 3600)"
    "round_double (of_int (endHour defaultSchedule - startHour defaultSchedule))
     = of_int (endHour defaultSchedule - startHour defaultSchedule)" by code_simp+
  have v: "(of_int (endHour defaultSchedule - startHour defaultSchedule) :: rat) = 8"
    by code_simp
  have c1: "getWorkingHoursSoFarTodayIn londonZone round_double defaultSchedule jan3_09_00 = 0"
    using inst [of jan3_09_00] h1 by blast
  have c2: "getWorkingHoursSoFarTodayIn londonZone round_double defaultSchedule jan7_14_00 = 0"
    using inst [of jan7_14_00] h2 by blast
  have "getWorkingHoursSoFarTodayIn londonZone round_double defaultSchedule jan3_19_00
      = of_int (endHour defaultSchedule - startHour defaultSchedule)"
    using inst [of jan3_19_00] h3 by blast
  then have c3: "getWorkingHoursSoFarTodayIn londonZone round_double defaultSchedule jan3_19_00 = 8"
    by (simp only: v)
  have "getWorkingHoursSoFarTodayIn londonZone round_double defaultSchedule jan3_14_00
      = round_double (round_double
          (of_int (jan3_14_00 - startOfWorkIn londonZone defaultSchedule jan3_14_00) / 1000) / 3600)"
    using inst [of jan3_14_00] h4 by blast
  then have c4: "getWorkingHoursSoFarTodayIn londonZone round_double defaultSchedule jan3_14_00 = 4"
    by (simp only: v4)
  have "getWorkingHoursSoFarTodayIn londonZone round_double defaultSchedule jan3_18_00
      = of_int (endHour defaultSchedule - startHour defaultSchedule)"
    using inst [of jan3_18_00] h5 by blast
  then have c5: "getWorkingHoursSoFarTodayIn londonZone round_double defaultSchedule jan3_18_00 = 8"
    by (simp only: v)
  from h1 c1 h2 c2 h3 c3 h4 c4 h5 c5 show ?thesis by blast
qed

text \<open>
  Claim C5, as stated, fails where the work window is inverted and where a
  daylight-saving change falls inside the work window. With start 18 and end 10 on a
  working Wednesday the hours so far are 0 at 12:00 and -8 at 19:00, and at 12:00, after
  the end of work, they are not the daily working hours. With start 0 and end 18 in
  London on 27 October 2024 they are 18.5 at 17:30 and 18 at 18:30, and 19 at 18:00.
\<close>

theorem getWorkingHoursSoFarTodayIn_mono_counterexample:
  "isDayEnabledIn londonZone invertedSchedule (todayIn londonZone jan3_12_00)
   \<and> Day (LocalTime londonZone jan3_12_00) = Day (LocalTime londonZone jan3_19_00)
   \<and> jan3_12_00 \<le> jan3_19_00
   \<and> getWorkingHoursSoFarTodayIn londonZone round_double invertedSchedule jan3_12_00 = 0
   \<and> getWorkingHoursSoFarTodayIn londonZone round_double invertedSchedule jan3_19_00 = - 8
   \<and> \<not> getWorkingHoursSoFarTodayIn londonZone round_double invertedSchedule jan3_12_00
         \<le> getWorkingHoursSoFarTodayIn londonZone round_double invertedSchedule jan3_19_00
   \<and> endOfWorkIn londonZone invertedSchedule jan3_12_00 \<le> jan3_12_00
   \<and> getWorkingHoursSoFarTodayIn londonZone round_double invertedSchedule jan3_12_00
         \<noteq> of_int (getDailyWorkingHours invertedSchedule)
   \<and> startHour everyDaySchedule \<le> endHour everyDaySchedule
   \<and> isDayEnabledIn londonZone everyDaySchedule (todayIn londonZone dstEnd_17_30)
   \<and> Day (LocalTime londonZone dstEnd_17_30) = Day (LocalTime londonZone dstEnd_18_30)
   \<and> dstEnd_17_30 \<le> dstEnd_18_30
   \<and> getWorkingHoursSoFarTodayIn londonZone round_double everyDaySchedule dstEnd_17_30 = 37 / 2
   \<and> getWorkingHoursSoFarTodayIn londonZone round_double everyDaySchedule dstEnd_18_30 = 18
   \<and> \<not> getWorkingHoursSoFarTodayIn londonZone round_double everyDaySchedule dstEnd_17_30
         \<le> getWorkingHoursSoFarTodayIn londonZone round_double everyDaySchedule dstEnd_18_30
   \<and> endOfWorkIn londonZone everyDaySchedule dstEnd_18_00 \<le> dstEnd_18_00
   \<and> getWorkingHoursSoFarTodayIn londonZone round_double everyDaySchedule dstEnd_18_00
         \<noteq> of_int (getDailyWorkingHours everyDaySchedule)"
proof (intro conjI)
  show "isDayEnabledIn londonZone invertedSchedule (todayIn londonZone jan3_12_00)"
    by code_simp
  show "Day (LocalTime londonZone jan3_12_00) = Day (LocalTime londonZone jan3_19_00)"
    by code_simp
  show "jan3_12_00 \<le> jan3_19_00" by code_simp
  show "getWorkingHoursSoFarTodayIn londonZone round_double invertedSchedule jan3_12_00 = 0"
    by code_simp
  show "getWorkingHoursSoFarTodayIn londonZone round_double invertedSchedule jan3_19_00 = - 8"
    by code_simp
  show "\<not> getWorkingHoursSoFarTodayIn londonZone round_double invertedSchedule jan3_12_00
         \<le> getWorkingHoursSoFarTodayIn londonZone round_double invertedSchedule jan3_19_00"
    by code_simp
  show "endOfWorkIn londonZone invertedSchedule jan3_12_00 \<le> jan3_12_00" by code_simp
  show "getWorkingHoursSoFarTodayIn londonZone round_double invertedSchedule jan3_12_00
         \<noteq> of_int (getDailyWorkingHours invertedSchedule)"
    by code_simp
  show "startHour everyDaySchedule \<le> endHour everyDaySchedule" by code_simp
  show "isDayEnabledIn londonZone everyDaySchedule (todayIn londonZone dstEnd_17_30)"
    by code_simp
  show "Day (LocalTime londonZone dstEnd_17_30) = Day (LocalTime londonZone dstEnd_18_30)"
    by code_simp
  show "dstEnd_17_30 \<le> dstEnd_18_30" by code_simp
  show "getWorkingHoursSoFarTodayIn londonZone round_double everyDaySchedule dstEnd_17_30 = 37 / 2"
    by code_simp
  show "getWorkingHoursSoFarTodayIn londonZone round_double everyDaySchedule dstEnd_18_30 = 18"
    by code_simp
  show "\<not> getWorkingHoursSoFarTodayIn londonZone round_double everyDaySchedule dstEnd_17_30
         \<le> getWorkingHoursSoFarTodayIn londonZone round_double everyDaySchedule dstEnd_18_30"
    by code_simp
  show "endOfWorkIn londonZone everyDaySchedule dstEnd_18_00 \<le> dstEnd_18_00" by code_simp
  show "getWorkingHoursSoFarTodayIn londonZone round_double everyDaySchedule dstEnd_18_00
         \<noteq> of_int (getDailyWorkingHours everyDaySchedule)"
    by code_simp
qed

text \<open>
  Claim C5, amended. For a schedule whose start hour is not after its end hour and a
  clock reading on a working day whose start and end of work are exactly the daily
  working hours apart (no daylight-saving change between them), the hours so far today
  do not decrease as the clock advances through the day, and they are the daily working
  hours at every reading at or after the end of work. This holds in every time zone and
  with every rounding that is monotone, leaves 0 alone and does not round the daily
  hours; rounding to a double is such a rounding (\<open>round_double_mono\<close>).
\<close>

theorem getWorkingHoursSoFarTodayIn_mono:
  assumes mono: "\<forall>x y. x \<le> y \<longrightarrow> r x \<le> r y" and zero: "r 0 = 0"
    and ex1: "r (of_int ((endHour s - startHour s) * 3600)) = of_int ((endHour s - startHour s) * 3600)"
    and ex2: "r (of_int (endHour s - startHour s)) = of_int (endHour s - startHour s)"
    and le: "startHour s \<le> endHour s"
  shows "(isDayEnabledIn z s (todayIn z now1)
        \<and> endOfWorkIn z s now1 - startOfWorkIn z s now1 = (endHour s - startHour s) * msPerHour
        \<and> Day (LocalTime z now1) = Day (LocalTime z now2) \<and> now1 \<le> now2
        \<longrightarrow> getWorkingHoursSoFarTodayIn z r s now1 \<le> getWorkingHoursSoFarTodayIn z r s now2)
     \<and> (isDayEnabledIn z s (todayIn z now)
        \<and> endOfWorkIn z s now - startOfWorkIn z s now = (endHour s - startHour s) * msPerHour
        \<and> endOfWorkIn z s now \<le> now
        \<longrightarrow> getWorkingHoursSoFarTodayIn z r s now = of_int (getDailyWorkingHours s))"
proof (intro conjI impI; (elim conjE)?)
  assume w: "isDayEnabledIn z s (todayIn z now1)"
    and d: "endOfWorkIn z s now1 - startOfWorkIn z s now1 = (endHour s - startHour s) * msPerHour"
    and sd: "Day (LocalTime z now1) = Day (LocalTime z now2)" and n12: "now1 \<le> now2"
  define g where "g ms = r (r (of_int ms / 1000) / 3600)" for ms :: int
  have t: "todayIn z now2 = todayIn z now1" using sd by (intro todayIn_same_day) simp
  have st: "startOfWorkIn z s now2 = startOfWorkIn z s now1"
    and en: "endOfWorkIn z s now2 = endOfWorkIn z s now1"
    by (simp_all add: startOfWorkIn_def endOfWorkIn_def t)
  have gm: "\<And>a b. a \<le> b \<Longrightarrow> g a \<le> g b"
  proof -
    fix a b :: int assume "a \<le> b"
    then have "(of_int a :: rat) / 1000 \<le> of_int b / 1000" by (simp add: divide_right_mono)
    then have "r (of_int a / 1000) \<le> r (of_int b / 1000)" using mono by blast
    then have "r (of_int a / 1000) / 3600 \<le> r (of_int b / 1000) / 3600"
      by (simp add: divide_right_mono)
    then show "g a \<le> g b" unfolding g_def using mono by blast
  qed
  have g0: "g 0 = 0" by (simp add: g_def zero)
  have gE: "g (endOfWorkIn z s now1 - startOfWorkIn z s now1) = of_int (endHour s - startHour s)"
    unfolding g_def using d ex1 ex2 by (rule hours_at_end)
  have se: "startOfWorkIn z s now1 \<le> endOfWorkIn z s now1"
    using d le by (simp add: msPerHour_def)
  have e1: "getWorkingHoursSoFarTodayIn z r s now1 =
      (if now1 < startOfWorkIn z s now1 then 0
       else if now1 > endOfWorkIn z s now1 then of_int (endHour s - startHour s)
       else g (now1 - startOfWorkIn z s now1))"
    using w by (simp add: getWorkingHoursSoFarTodayIn_alt g_def)
  have e2: "getWorkingHoursSoFarTodayIn z r s now2 =
      (if now2 < startOfWorkIn z s now1 then 0
       else if now2 > endOfWorkIn z s now1 then of_int (endHour s - startHour s)
       else g (now2 - startOfWorkIn z s now1))"
    using w by (simp add: getWorkingHoursSoFarTodayIn_alt t st en g_def)
  show "getWorkingHoursSoFarTodayIn z r s now1 \<le> getWorkingHoursSoFarTodayIn z r s now2"
    unfolding e1 e2 by (rule hours_mono_general [OF gm g0 gE se n12])
next
  assume w: "isDayEnabledIn z s (todayIn z now)"
    and d: "endOfWorkIn z s now - startOfWorkIn z s now = (endHour s - startHour s) * msPerHour"
    and e: "endOfWorkIn z s now \<le> now"
  have se: "startOfWorkIn z s now \<le> endOfWorkIn z s now"
    using d le by (simp add: msPerHour_def)
  have at_end: "r (r (of_int (endOfWorkIn z s now - startOfWorkIn z s now) / 1000) / 3600)
      = of_int (endHour s - startHour s)"
    using d ex1 ex2 by (rule hours_at_end)
  show "getWorkingHoursSoFarTodayIn z r s now = of_int (getDailyWorkingHours s)"
  proof (cases "endOfWorkIn z s now < now")
    case True
    with w se show ?thesis
      by (simp add: getWorkingHoursSoFarTodayIn_alt getDailyWorkingHours_def)
  next
    case False
    with e have eq: "endOfWorkIn z s now = now" by simp
    have "getWorkingHoursSoFarTodayIn z r s now
        = r (r (of_int (now - startOfWorkIn z s now) / 1000) / 3600)"
      using w se eq by (simp add: getWorkingHoursSoFarTodayIn_alt)
    with at_end show ?thesis by (simp only: eq getDailyWorkingHours_def)
  qed
qed

theorem getWorkingHoursSoFarTodayIn_mono_witness:
  "startHour defaultSchedule \<le> endHour defaultSchedule
   \<and> isDayEnabledIn londonZone defaultSchedule (todayIn londonZone jan3_12_00)
   \<and> endOfWorkIn londonZone defaultSchedule jan3_12_00
         - startOfWorkIn londonZone defaultSchedule jan3_12_00
       = (endHour defaultSchedule - startHour defaultSchedule) * msPerHour
   \<and> Day (LocalTime londonZone jan3_12_00) = Day (LocalTime londonZone jan3_19_00)
   \<and> jan3_12_00 \<le> jan3_19_00
   \<and> getWorkingHoursSoFarTodayIn londonZone round_double defaultSchedule jan3_12_00
        \<le> getWorkingHoursSoFarTodayIn londonZone round_double defaultSchedule jan3_19_00
   \<and> endOfWorkIn londonZone defaultSchedule jan3_19_00 \<le> jan3_19_00
   \<and> getWorkingHoursSoFarTodayIn londonZone round_double defaultSchedule jan3_19_00
        = of_int (getDailyWorkingHours defaultSchedule)"
proof -
  have mono: "\<forall>x y. x \<le> y \<longrightarrow> round_double x \<le> round_double y"
    by (simp add: round_double_mono)
  have zero: "round_double 0 = 0" by (simp add: round_double_def)
  have ex1: "round_double (of_int ((endHour defaultSchedule - startHour defaultSchedule) * 3600))
      = of_int ((endHour defaultSchedule - startHour defaultSchedule) * 3600)"
    by code_simp
  have ex2: "round_double (of_int (endHour defaultSchedule - startHour defaultSchedule))
      = of_int (endHour defaultSchedule - startHour defaultSchedule)"
    by code_simp
  have le: "startHour defaultSchedule \<le> endHour defaultSchedule" by code_simp
  note inst = getWorkingHoursSoFarTodayIn_mono [where r = round_double and s = defaultSchedule
      and z = londonZone, OF mono zero ex1 ex2 le]
  have h1: "isDayEnabledIn londonZone defaultSchedule (todayIn londonZone jan3_12_00)"
    "endOfWorkIn londonZone defaultSchedule jan3_12_00
         - startOfWorkIn londonZone defaultSchedule jan3_12_00
       = (endHour defaultSchedule - startHour defaultSchedule) * msPerHour"
    "Day (LocalTime londonZone jan3_12_00) = Day (LocalTime londonZone jan3_19_00)"
    "jan3_12_00 \<le> jan3_19_00" by code_simp+
  have h2: "isDayEnabledIn londonZone defaultSchedule (todayIn londonZone jan3_19_00)"
    "endOfWorkIn londonZone defaultSchedule jan3_19_00
         - startOfWorkIn londonZone defaultSchedule jan3_19_00
       = (endHour defaultSchedule - startHour defaultSchedule) * msPerHour"
    "endOfWorkIn londonZone defaultSchedule jan3_19_00 \<le> jan3_19_00" by code_simp+
  have c1: "getWorkingHoursSoFarTodayIn londonZone round_double defaultSchedule jan3_12_00
        \<le> getWorkingHoursSoFarTodayIn londonZone round_double defaultSchedule jan3_19_00"
    using inst [of jan3_12_00 jan3_19_00] h1 by blast
  have c2: "getWorkingHoursSoFarTodayIn londonZone round_double defaultSchedule jan3_19_00
        = of_int (getDailyWorkingHours defaultSchedule)"
    using inst [of _ _ jan3_19_00] h2 by blast
  from le h1 h2 c1 c2 show ?thesis by blast
qed

text \<open>
  Claim C6, as stated, fails where the working hours of the month are negative (an
  inverted work window): the source returns 0 there, not the quotient.
\<close>

theorem earnedPerSecond_counterexample:
  "getTotalWorkingHoursThisMonth invertedSchedule wed_14_00 * 3600 \<noteq> 0
   \<and> earnedPerSecond invertedSchedule wed_14_00
       \<noteq> js_div (annualSalary invertedSchedule / 12)
            (of_int (getTotalWorkingHoursThisMonth invertedSchedule wed_14_00 * 3600))"
  by code_simp

text \<open>
  Claim C6, amended. The earnings per second are a twelfth of the annual salary divided
  by the working hours of the month times 3600 where that product is positive, and 0
  where it is zero or negative.
\<close>

theorem earnedPerSecond_eq:
  "earnedPerSecond s now =
     (if 0 < getTotalWorkingHoursThisMonth s now * 3600
      then Num (annualSalary s / 12 / of_int (getTotalWorkingHoursThisMonth s now * 3600))
      else Num 0)"
  by (simp add: earnedPerSecond_def Let_def js_div_def)

theorem earnedPerSecond_eq_witness:
  "0 < getTotalWorkingHoursThisMonth defaultSchedule wed_14_00 * 3600
   \<and> earnedPerSecond defaultSchedule wed_14_00 = Num (25 / 6624)
   \<and> \<not> 0 < getTotalWorkingHoursThisMonth invertedSchedule wed_14_00 * 3600
   \<and> earnedPerSecond invertedSchedule wed_14_00 = Num 0"
proof -
  have h1: "getTotalWorkingHoursThisMonth defaultSchedule wed_14_00 = 184" by code_simp
  have h2: "getTotalWorkingHoursThisMonth invertedSchedule wed_14_00 = - 184" by code_simp
  have h3: "annualSalary defaultSchedule = 30000" by code_simp
  show ?thesis
    using earnedPerSecond_eq [of defaultSchedule wed_14_00]
      earnedPerSecond_eq [of invertedSchedule wed_14_00]
    by (simp add: h1 h2 h3)
qed

text \<open>
  Claim C7. \<open>isCurrentlyInWorkHours\<close> holds exactly if today is a working day and the
  time of day in hours, hour + minute / 60, is at least the start hour and less than the
  end hour.
\<close>

theorem isCurrentlyInWorkHours_iff:
  "isCurrentlyInWorkHours s now \<longleftrightarrow>
     isDayEnabled s (todayOf now)
     \<and> of_int (startHour s) \<le> (of_int (getHours now) :: rat) + of_int (getMinutes now) / 60
     \<and> (of_int (getHours now) :: rat) + of_int (getMinutes now) / 60 < of_int (endHour s)"
  by (simp add: isCurrentlyInWorkHours_def Let_def)

text \<open>
  Claim C8. With all seven weekdays switched off, at every clock reading the working
  hours of the month and the working days per year are 0, and the earnings of the month,
  of today and per second are the number 0: no division by zero is reached.
\<close>

theorem all_days_off:
  assumes "\<forall>d<7. \<not> dayToggles s d"
  shows "getTotalWorkingHoursThisMonth s now = 0
     \<and> getTotalWorkingDaysPerYear s = 0
     \<and> calculateEarnings s now a = Num 0
     \<and> calculateDailyEarnings s now a = Num 0
     \<and> earnedPerSecond s now = Num 0"
proof -
  have h: "getTotalWorkingHoursThisMonth s now = 0"
    using assms by (simp add: getTotalWorkingHoursThisMonth_def totalLoop_all_off)
  have "{d. d < 7 \<and> dayToggles s d} = {}" using assms by auto
  then have d: "getTotalWorkingDaysPerYear s = 0"
    by (simp add: getTotalWorkingDaysPerYear_card)
  have n: "\<not> isDayEnabled s (todayOf now)"
    using assms by (simp add: isDayEnabled_def getDay_less_7)
  show ?thesis
    using h d n by (simp add: calculateEarnings_def calculateDailyEarnings_def
        earnedPerSecond_def Let_def)
qed

theorem all_days_off_witness:
  "\<not> dayToggles allOffSchedule 0 \<and> \<not> dayToggles allOffSchedule 1
   \<and> \<not> dayToggles allOffSchedule 2 \<and> \<not> dayToggles allOffSchedule 3
   \<and> \<not> dayToggles allOffSchedule 4 \<and> \<not> dayToggles allOffSchedule 5
   \<and> \<not> dayToggles allOffSchedule 6
   \<and> getTotalWorkingHoursThisMonth allOffSchedule wed_14_00 = 0
   \<and> getTotalWorkingDaysPerYear allOffSchedule = 0
   \<and> calculateEarnings allOffSchedule wed_14_00 30000 = Num 0
   \<and> calculateDailyEarnings allOffSchedule wed_14_00 30000 = Num 0
   \<and> earnedPerSecond allOffSchedule wed_14_00 = Num 0"
proof -
  have h: "\<forall>d<7. \<not> dayToggles allOffSchedule d"
    by (simp add: allOffSchedule_def)
  show ?thesis using all_days_off [OF h, of wed_14_00 30000] h by simp
qed

text \<open>
  Claim C9. With start hour 18 and end hour 10 the daily working hours are -8, and at
  every clock reading the fraction that \<open>calculateDailyEarnings\<close> computes is a finite
  number, never \<open>NaN\<close> or an infinity; so are the daily fraction and the earnings.
\<close>

theorem inverted_window_fraction_finite:
  assumes "startHour s = 18" and "endHour s = 10"
  shows "getDailyWorkingHours s = - 8
     \<and> isFinite (Math_max (Num 0) (Math_min (Num 1)
          (js_div (getWorkingHoursSoFarToday s now) (of_int (getDailyWorkingHours s)))))
     \<and> isFinite (spec_dailyFraction s now)
     \<and> isFinite (calculateDailyEarnings s now a)"
proof -
  have h: "getDailyWorkingHours s = - 8"
    using assms by (simp add: getDailyWorkingHours_def)
  then show ?thesis
    by (simp add: calculateDailyEarnings_eq spec_dailyFraction_Num dailyRate_Num clamp_Num)
qed

theorem inverted_window_fraction_finite_witness:
  "startHour invertedSchedule = 18 \<and> endHour invertedSchedule = 10
   \<and> getDailyWorkingHours invertedSchedule = - 8
   \<and> isFinite (spec_dailyFraction invertedSchedule wed_19_00)
   \<and> isFinite (calculateDailyEarnings invertedSchedule wed_19_00 30000)"
proof -
  have h1: "startHour invertedSchedule = 18" by (simp add: invertedSchedule_def)
  have h2: "endHour invertedSchedule = 10" by (simp add: invertedSchedule_def)
  show ?thesis
    using inverted_window_fraction_finite [OF h1 h2, of wed_19_00 30000] h1 h2 by simp
qed

text \<open>
  Claim C10, as stated, fails on doubles: a twelfth of the salary times the fraction and
  the salary times the earnings for a salary of 1 are rounded differently. On Wednesday
  3 January 2024 at 14:00 with the default schedule the monthly earnings for 30000 are
  271.7391304347826 and 30000 times those for 1 are 271.73913043478257; the daily
  earnings for 40000 are 76.92307692307692 against 76.92307692307693.
\<close>

theorem earnings_scale_with_salary_counterexample:
  "calculateEarningsIn londonZone round_double defaultSchedule jan3_14_00 30000
     = Num (2390242669078261 / 8796093022208)
   \<and> js_mul_r round_double (Num 30000)
         (calculateEarningsIn londonZone round_double defaultSchedule jan3_14_00 1)
     = Num (4780485338156521 / 17592186044416)
   \<and> calculateEarningsIn londonZone round_double defaultSchedule jan3_14_00 30000
     \<noteq> js_mul_r round_double (Num 30000)
         (calculateEarningsIn londonZone round_double defaultSchedule jan3_14_00 1)
   \<and> calculateDailyEarningsIn londonZone round_double defaultSchedule jan3_14_00 40000
     = Num (5412980321358769 / 70368744177664)
   \<and> js_mul_r round_double (Num 40000)
         (calculateDailyEarningsIn londonZone round_double defaultSchedule jan3_14_00 1)
     = Num (2706490160679385 / 35184372088832)
   \<and> calculateDailyEarningsIn londonZone round_double defaultSchedule jan3_14_00 40000
     \<noteq> js_mul_r round_double (Num 40000)
         (calculateDailyEarningsIn londonZone round_double defaultSchedule jan3_14_00 1)"
proof -
  have m1: "calculateEarningsIn londonZone round_double defaultSchedule jan3_14_00 30000
     = Num (2390242669078261 / 8796093022208)" by code_simp
  have m2: "js_mul_r round_double (Num 30000)
         (calculateEarningsIn londonZone round_double defaultSchedule jan3_14_00 1)
     = Num (4780485338156521 / 17592186044416)" by code_simp
  have d1: "calculateDailyEarningsIn londonZone round_double defaultSchedule jan3_14_00 40000
     = Num (5412980321358769 / 70368744177664)" by code_simp
  have d2: "js_mul_r round_double (Num 40000)
         (calculateDailyEarningsIn londonZone round_double defaultSchedule jan3_14_00 1)
     = Num (2706490160679385 / 35184372088832)" by code_simp
  have m: "calculateEarningsIn londonZone round_double defaultSchedule jan3_14_00 30000
     \<noteq> js_mul_r round_double (Num 30000)
         (calculateEarningsIn londonZone round_double defaultSchedule jan3_14_00 1)"
    unfolding m1 m2 by simp
  have d: "calculateDailyEarningsIn londonZone round_double defaultSchedule jan3_14_00 40000
     \<noteq> js_mul_r round_double (Num 40000)
         (calculateDailyEarningsIn londonZone round_double defaultSchedule jan3_14_00 1)"
    unfolding d1 d2 by simp
  from m1 m2 m d1 d2 d show ?thesis by blast
qed

text \<open>
  Claim C10, amended. In every time zone and with every rounding that commutes with
  negation, the earnings of the month are a twelfth of the salary times a fraction, and
  the earnings of today the daily rate times a fraction, where neither fraction depends
  on the salary; negating the salary negates both earnings exactly, since only the
  fraction is clamped. Without rounding the earnings are the salary times the earnings
  for a salary of 1.
\<close>

theorem earnings_scale_with_salary:
  assumes odd: "\<forall>x. r (- x) = - r x"
  shows "calculateEarningsIn z r s now a
           = js_mul_r r (Num (r (a / 12))) (spec_monthlyFractionIn z r s now)
     \<and> calculateDailyEarningsIn z r s now a
           = js_mul_r r (dailyRateIn r s a) (spec_dailyFractionIn z r s now)
     \<and> calculateEarningsIn z r s now (- a) = js_neg (calculateEarningsIn z r s now a)
     \<and> calculateDailyEarningsIn z r s now (- a)
           = js_neg (calculateDailyEarningsIn z r s now a)
     \<and> calculateEarningsIn z exact s now a
           = js_mul (Num a) (calculateEarningsIn z exact s now 1)
     \<and> calculateDailyEarningsIn z exact s now a
           = js_mul (Num a) (calculateDailyEarningsIn z exact s now 1)"
proof -
  have "r (- 0) = - r 0" using odd by blast
  then have zero: "r 0 = 0" by simp
  have neg: "\<And>x. r (- x) = - r x" using odd by blast
  have ez: "exact 0 = 0" by (simp add: exact_def)
  have m: "calculateEarningsIn z r s now a
      = js_mul_r r (Num (r (a / 12))) (spec_monthlyFractionIn z r s now)"
    by (rule calculateEarningsIn_eq [of r, OF zero])
  have d: "calculateDailyEarningsIn z r s now a
      = js_mul_r r (dailyRateIn r s a) (spec_dailyFractionIn z r s now)"
    by (rule calculateDailyEarningsIn_eq [of r, OF zero])
  have mn: "calculateEarningsIn z r s now (- a) = js_neg (calculateEarningsIn z r s now a)"
    by (simp add: calculateEarningsIn_eq [of r, OF zero] spec_monthlyFractionIn_Num neg)
  have dn: "calculateDailyEarningsIn z r s now (- a)
      = js_neg (calculateDailyEarningsIn z r s now a)"
    by (simp add: calculateDailyEarningsIn_eq [of r, OF zero] spec_dailyFractionIn_Num
        dailyRateIn_Num neg zero)
  have me: "calculateEarningsIn z exact s now a
      = js_mul (Num a) (calculateEarningsIn z exact s now 1)"
    by (simp add: calculateEarningsIn_eq [of exact, OF ez] spec_monthlyFractionIn_Num)
       (simp add: exact_def)
  have de: "calculateDailyEarningsIn z exact s now a
      = js_mul (Num a) (calculateDailyEarningsIn z exact s now 1)"
    by (simp add: calculateDailyEarningsIn_eq [of exact, OF ez] spec_dailyFractionIn_Num dailyRateIn_Num)
       (simp add: exact_def)
  from m d mn dn me de show ?thesis by blast
qed

theorem earnings_scale_with_salary_witness:
  "calculateEarningsIn londonZone round_double defaultSchedule jan3_14_00 30000
     = Num (2390242669078261 / 8796093022208)
   \<and> calculateEarningsIn londonZone round_double defaultSchedule jan3_14_00 (- 30000)
     = Num (- (2390242669078261 / 8796093022208))
   \<and> calculateDailyEarningsIn londonZone round_double defaultSchedule jan3_14_00 30000
     = Num (4059735241019077 / 70368744177664)
   \<and> calculateDailyEarningsIn londonZone round_double defaultSchedule jan3_14_00 (- 30000)
     = Num (- (4059735241019077 / 70368744177664))"
proof -
  have odd: "\<forall>x. round_double (- x) = - round_double x"
    by (simp add: round_double_odd)
  note inst = earnings_scale_with_salary [where r = round_double and z = londonZone
      and s = defaultSchedule and now = jan3_14_00 and a = 30000, OF odd]
  have m: "calculateEarningsIn londonZone round_double defaultSchedule jan3_14_00 30000
     = Num (2390242669078261 / 8796093022208)" by code_simp
  have d: "calculateDailyEarningsIn londonZone round_double defaultSchedule jan3_14_00 30000
     = Num (4059735241019077 / 70368744177664)" by code_simp
  have "calculateEarningsIn londonZone round_double defaultSchedule jan3_14_00 (- 30000)
      = js_neg (calculateEarningsIn londonZone round_double defaultSchedule jan3_14_00 30000)"
    using inst by blast
  then have mn: "calculateEarningsIn londonZone round_double defaultSchedule jan3_14_00 (- 30000)
     = Num (- (2390242669078261 / 8796093022208))" by (simp only: m js_neg.simps)
  have "calculateDailyEarningsIn londonZone round_double defaultSchedule jan3_14_00 (- 30000)
      = js_neg (calculateDailyEarningsIn londonZone round_double defaultSchedule jan3_14_00 30000)"
    using inst by blast
  then have dn: "calculateDailyEarningsIn londonZone round_double defaultSchedule jan3_14_00 (- 30000)
     = Num (- (4059735241019077 / 70368744177664))" by (simp only: d js_neg.simps)
  from m mn d dn show ?thesis by blast
qed

end
